theory Spec2Isabelle
  imports Main "HOL-Library.Word"
begin

unbundle bit_operations_syntax

section \<open>The two-wire bus and the chip behind it\<close>

text \<open>
  The driver in \<^verbatim>\<open>pcf85063a.py\<close> is a register map: every class attribute is a
  descriptor object of the register library (\<^verbatim>\<open>i2c_bit.RWBit\<close>, \<^verbatim>\<open>i2c_bits.RWBits\<close>,
  \<^verbatim>\<open>i2c_bcd_datetime.BCDDateTimeRegister\<close>, \<^verbatim>\<open>i2c_bcd_alarm.BCDAlarmTimeRegister\<close>), and
  the only code of its own is the constructor and the \<^verbatim>\<open>datetime\<close> property. The
  descriptor classes and the bus transport are imported, not part of the source file:
  they are modelled from the specification (sections 4.1 to 4.3 and 6), each such
  definition saying so. The attribute table, the constructor and the \<^verbatim>\<open>datetime\<close>
  property are translated from the source.
\<close>

type_synonym byte = "8 word"

datatype field_name = Seconds | Minutes | Hours | Day | Weekday | Month | Year

text \<open>
  The error kinds of section 7. \<open>NotModelled\<close> is not an error of the driver: it marks
  the alarm descriptor variants that the driver does not instantiate and the
  specification does not describe.
\<close>

datatype error = TransportError | DecodeError field_name | NotModelled

text \<open>
  Modelled from the spec: the transport collaborator of section 6, with its two calls
  \<^verbatim>\<open>write(device_addr, bytes)\<close> and \<^verbatim>\<open>write_then_read(device_addr, write_bytes, read_len)\<close>
  (here \<open>bus_write\<close> and \<open>bus_write_then_read\<close>). A transaction is recorded with the
  device address it was sent to.
\<close>

datatype txn = Write nat "byte list" | WriteThenRead nat "byte list" nat

fun device_of :: "txn \<Rightarrow> nat" where
  "device_of (Write device_addr bytes) = device_addr"
| "device_of (WriteThenRead device_addr write_bytes read_len) = device_addr"

fun is_write :: "txn \<Rightarrow> bool" where
  "is_write (Write device_addr bytes) = True"
| "is_write (WriteThenRead device_addr write_bytes read_len) = False"

text \<open>
  Modelled from the spec: the state outside the driver, which is the chip's registers
  (the sole source of truth, section 3, addressed by an 8-bit offset), the transactions
  completed so far, oldest first, and the outcomes of the coming transactions
  (\<open>True\<close>: that transaction fails with a transport error; past the end of the list
  every transaction succeeds). The chip is taken as a plain register file: the first
  byte written selects a register, further bytes go to consecutive registers, and a
  read returns consecutive registers from the selected one. The clock does not tick,
  and a failed transaction leaves the registers as they were.
\<close>

record bus =
  regs :: "nat \<Rightarrow> byte"
  trace :: "txn list"
  faults :: "bool list"

fun store :: "nat \<Rightarrow> byte list \<Rightarrow> (nat \<Rightarrow> byte) \<Rightarrow> (nat \<Rightarrow> byte)" where
  "store a [] r = r"
| "store a (x # xs) r = store (Suc a) xs (r(a := x))"

definition fetch :: "nat \<Rightarrow> nat \<Rightarrow> (nat \<Rightarrow> byte) \<Rightarrow> byte list" where
  "fetch a n r = map r [a ..< a + n]"

definition next_fails :: "bus \<Rightarrow> bool" where
  "next_fails b = (case faults b of [] \<Rightarrow> False | f # fs \<Rightarrow> f)"

definition bus_write :: "nat \<Rightarrow> byte list \<Rightarrow> bus \<Rightarrow> (error + unit) \<times> bus" where
  "bus_write device_addr bytes b =
     (if next_fails b then (Inl TransportError, b\<lparr>faults := tl (faults b)\<rparr>)
      else (Inr (),
            b\<lparr>regs := (case bytes of [] \<Rightarrow> regs b | a # data \<Rightarrow> store (unat a) data (regs b)),
              trace := trace b @ [Write device_addr bytes],
              faults := tl (faults b)\<rparr>))"

definition bus_write_then_read :: "nat \<Rightarrow> byte list \<Rightarrow> nat \<Rightarrow> bus \<Rightarrow> (error + byte list) \<times> bus" where
  "bus_write_then_read device_addr write_bytes read_len b =
     (if next_fails b then (Inl TransportError, b\<lparr>faults := tl (faults b)\<rparr>)
      else (Inr (case write_bytes of [] \<Rightarrow> fetch 0 read_len (regs b)
                                   | a # rest \<Rightarrow> fetch (unat a) read_len (regs b)),
            b\<lparr>trace := trace b @ [WriteThenRead device_addr write_bytes read_len],
              faults := tl (faults b)\<rparr>))"

section \<open>The device handle\<close>

text \<open>
  \<^verbatim>\<open>def __init__(self, i2c_bus): self.i2c_device = I2CDevice(i2c_bus, 0x51)\<close>.
  The bus is the state that every accessor takes and returns; the handle keeps the
  device address.
\<close>

record I2CDevice =
  device_address :: nat

record PCF85063A =
  i2c_device :: I2CDevice

definition init :: PCF85063A where
  "init = \<lparr>i2c_device = \<lparr>device_address = 0x51\<rparr>\<rparr>"

section \<open>Bit and field accessors\<close>

text \<open>
  Modelled from the spec: the accessors of section 4.1, which stand for the register
  library's \<^verbatim>\<open>RWBit\<close> and \<^verbatim>\<open>RWBits\<close> descriptors. A read is one transaction of one byte
  at \<open>addr\<close>; it extracts \<open>width\<close> bits from \<open>offset\<close> and, if signed, sign-extends from
  bit \<open>width - 1\<close>. A write reads the current byte, clears the target span, ORs in the
  masked bits of the new value and writes the single byte back. A transport failure is
  passed on.
\<close>

definition read_byte :: "nat \<Rightarrow> PCF85063A \<Rightarrow> bus \<Rightarrow> (error + byte) \<times> bus" where
  "read_byte addr self b =
     (case bus_write_then_read (device_address (i2c_device self)) [of_nat addr] 1 b of
        (Inl e, b') \<Rightarrow> (Inl e, b')
      | (Inr bytes, b') \<Rightarrow>
          (case bytes of [x] \<Rightarrow> (Inr x, b') | _ \<Rightarrow> (Inl TransportError, b')))"

definition write_byte :: "nat \<Rightarrow> byte \<Rightarrow> PCF85063A \<Rightarrow> bus \<Rightarrow> (error + unit) \<times> bus" where
  "write_byte addr x self b = bus_write (device_address (i2c_device self)) [of_nat addr, x] b"

definition field_mask :: "nat \<Rightarrow> nat \<Rightarrow> byte" where
  "field_mask offset width = push_bit offset (mask width)"

definition extract_field :: "nat \<Rightarrow> nat \<Rightarrow> bool \<Rightarrow> byte \<Rightarrow> int" where
  "extract_field offset width is_signed x =
     (let raw = drop_bit offset (x AND field_mask offset width)
      in if is_signed \<and> bit raw (width - 1) then uint raw - 2 ^ width else uint raw)"

definition insert_field :: "nat \<Rightarrow> nat \<Rightarrow> int \<Rightarrow> byte \<Rightarrow> byte" where
  "insert_field offset width v x =
     (x AND NOT (field_mask offset width)) OR (push_bit offset (word_of_int v) AND field_mask offset width)"

definition read_bit :: "nat \<Rightarrow> nat \<Rightarrow> PCF85063A \<Rightarrow> bus \<Rightarrow> (error + bool) \<times> bus" where
  "read_bit addr n self b =
     (case read_byte addr self b of
        (Inl e, b') \<Rightarrow> (Inl e, b')
      | (Inr x, b') \<Rightarrow> (Inr (bit x n), b'))"

definition write_bit :: "nat \<Rightarrow> nat \<Rightarrow> bool \<Rightarrow> PCF85063A \<Rightarrow> bus \<Rightarrow> (error + unit) \<times> bus" where
  "write_bit addr n v self b =
     (case read_byte addr self b of
        (Inl e, b') \<Rightarrow> (Inl e, b')
      | (Inr x, b') \<Rightarrow> write_byte addr (insert_field n 1 (if v then 1 else 0) x) self b')"

definition read_bits :: "nat \<Rightarrow> nat \<Rightarrow> nat \<Rightarrow> bool \<Rightarrow> PCF85063A \<Rightarrow> bus \<Rightarrow> (error + int) \<times> bus" where
  "read_bits addr offset width is_signed self b =
     (case read_byte addr self b of
        (Inl e, b') \<Rightarrow> (Inl e, b')
      | (Inr x, b') \<Rightarrow> (Inr (extract_field offset width is_signed x), b'))"

definition write_bits :: "nat \<Rightarrow> nat \<Rightarrow> nat \<Rightarrow> bool \<Rightarrow> int \<Rightarrow> PCF85063A \<Rightarrow> bus \<Rightarrow> (error + unit) \<times> bus" where
  "write_bits addr offset width is_signed v self b =
     (case read_byte addr self b of
        (Inl e, b') \<Rightarrow> (Inl e, b')
      | (Inr x, b') \<Rightarrow> write_byte addr (insert_field offset width v x) self b')"

section \<open>The register map of the driver\<close>

text \<open>
  What a Python caller hands to, and gets from, a bit or field attribute: a \<^verbatim>\<open>bool\<close>
  for \<^verbatim>\<open>RWBit\<close>, an \<^verbatim>\<open>int\<close> for \<^verbatim>\<open>RWBits\<close>. A \<^verbatim>\<open>bool\<close> is an \<^verbatim>\<open>int\<close> in Python and an
  \<^verbatim>\<open>int\<close> has a truth value.
\<close>

datatype pyval = PyBool bool | PyInt int

fun truthy :: "pyval \<Rightarrow> bool" where
  "truthy (PyBool p) = p"
| "truthy (PyInt i) = (i \<noteq> 0)"

fun as_int :: "pyval \<Rightarrow> int" where
  "as_int (PyBool p) = (if p then 1 else 0)"
| "as_int (PyInt i) = i"

text \<open>
  The descriptor objects as the source constructs them: \<^verbatim>\<open>RWBit(register_address, bit)\<close>
  and \<^verbatim>\<open>RWBits(num_bits, register_address, lowest_bit, signed=False)\<close>.
\<close>

datatype descriptor = RWBit nat nat | RWBits nat nat nat bool

text \<open>
  Modelled from the spec: reading and assigning an attribute is the accessor of section
  4.1 at the parameters of its descriptor, \<open>read_bit\<close> and \<open>write_bit\<close> for an \<^verbatim>\<open>RWBit\<close>,
  \<open>read_bits\<close> and \<open>write_bits\<close> for an \<^verbatim>\<open>RWBits\<close>.
\<close>

definition map_result :: "('a \<Rightarrow> 'b) \<Rightarrow> (error + 'a) \<times> bus \<Rightarrow> (error + 'b) \<times> bus" where
  "map_result f r = (case r of (Inl e, b') \<Rightarrow> (Inl e, b') | (Inr x, b') \<Rightarrow> (Inr (f x), b'))"

fun get_attr :: "descriptor \<Rightarrow> PCF85063A \<Rightarrow> bus \<Rightarrow> (error + pyval) \<times> bus" where
  "get_attr (RWBit register_address n) self b =
     map_result PyBool (read_bit register_address n self b)"
| "get_attr (RWBits num_bits register_address lowest_bit is_signed) self b =
     map_result PyInt (read_bits register_address lowest_bit num_bits is_signed self b)"

fun set_attr :: "descriptor \<Rightarrow> pyval \<Rightarrow> PCF85063A \<Rightarrow> bus \<Rightarrow> (error + unit) \<times> bus" where
  "set_attr (RWBit register_address n) v self b =
     write_bit register_address n (truthy v) self b"
| "set_attr (RWBits num_bits register_address lowest_bit is_signed) v self b =
     write_bits register_address lowest_bit num_bits is_signed (as_int v) self b"

text \<open>The bit and field attributes of class \<^verbatim>\<open>PCF85063A\<close>, in the order of the source.\<close>

datatype attribute =
    lost_power | clockout_frequency | alarm_interrupt | alarm_status
  | timerA_enabled | timerA_frequency | timerA_value | timerA_interrupt
  | timerA_status | timerA_pulsed | high_capacitance
  | calibration_schedule_per_minute | calibration | ram_byte

fun descriptor_of :: "attribute \<Rightarrow> descriptor" where
  "descriptor_of lost_power = RWBit 0x04 7"
| "descriptor_of clockout_frequency = RWBits 3 0x01 0 False"
| "descriptor_of alarm_interrupt = RWBit 0x01 7"
| "descriptor_of alarm_status = RWBit 0x01 6"
| "descriptor_of timerA_enabled = RWBit 0x11 2"
| "descriptor_of timerA_frequency = RWBits 2 0x11 3 False"
| "descriptor_of timerA_value = RWBits 8 0x10 0 False"
| "descriptor_of timerA_interrupt = RWBit 0x11 1"
| "descriptor_of timerA_status = RWBit 0x01 3"
| "descriptor_of timerA_pulsed = RWBit 0x11 0"
| "descriptor_of high_capacitance = RWBit 0x00 0"
| "descriptor_of calibration_schedule_per_minute = RWBit 0x02 7"
| "descriptor_of calibration = RWBits 7 0x02 0 True"
| "descriptor_of ram_byte = RWBits 8 0x03 0 False"

text \<open>
  The two block descriptors: \<^verbatim>\<open>BCDDateTimeRegister(register_address, weekday_first,
  weekday_start)\<close> and \<^verbatim>\<open>BCDAlarmTimeRegister(register_address, has_seconds,
  weekday_shared, weekday_start)\<close>. In the source:
  \<^verbatim>\<open>datetime_register = i2c_bcd_datetime.BCDDateTimeRegister(0x04, False, 0)\<close> and
  \<^verbatim>\<open>alarm = i2c_bcd_alarm.BCDAlarmTimeRegister(0x0B, has_seconds=True,
  weekday_shared=False, weekday_start=0)\<close>.
\<close>

datatype datetime_descriptor = BCDDateTimeRegister nat bool int

datatype alarm_descriptor = BCDAlarmTimeRegister nat bool bool int

definition datetime_register :: datetime_descriptor where
  "datetime_register = BCDDateTimeRegister 0x04 False 0"

definition alarm :: alarm_descriptor where
  "alarm = BCDAlarmTimeRegister 0x0B True False 0"

section \<open>The BCD codecs\<close>

text \<open>
  The calendar value of section 4.2: the seven fields that the chip holds. (Python's
  \<^verbatim>\<open>struct_time\<close> has two more, the day of the year and the daylight-saving flag, which
  the chip does not store.)
\<close>

record struct_time =
  tm_year :: int
  tm_mon :: int
  tm_mday :: int
  tm_hour :: int
  tm_min :: int
  tm_sec :: int
  tm_wday :: int

definition bind :: "error + 'a \<Rightarrow> ('a \<Rightarrow> error + 'b) \<Rightarrow> error + 'b" where
  "bind r f = (case r of Inl e \<Rightarrow> Inl e | Inr x \<Rightarrow> f x)"

text \<open>
  Modelled from the spec: the BCD pair of section 4.2 (\<^verbatim>\<open>tens = byte>>4 & 0xF\<close>,
  \<^verbatim>\<open>ones = byte & 0xF\<close>, \<^verbatim>\<open>value = tens*10+ones\<close>), which fails with a \<open>DecodeError\<close>
  naming the field if a nibble exceeds 9, and its inverse on the write side.
\<close>

definition bcd_decode :: "field_name \<Rightarrow> byte \<Rightarrow> error + int" where
  "bcd_decode f x =
     (let tens = drop_bit 4 x AND 0xF; ones = x AND 0xF
      in if 9 < tens \<or> 9 < ones then Inl (DecodeError f)
         else Inr (uint tens * 10 + uint ones))"

definition bcd_encode :: "int \<Rightarrow> byte" where
  "bcd_encode n = word_of_int ((n div 10) * 16 + n mod 10)"

text \<open>
  Modelled from the spec: the date-time register group of sections 3 and 4.2, seven
  bytes: seconds, minutes, hours, day of month, weekday, month, year (weekday before
  the day of month if \<open>weekday_first\<close>). The top bit of the seconds byte is the
  power-lost flag and is stripped before decoding; the weekday is a plain 3-bit number,
  stored from \<open>weekday_start\<close>; the year is stored as \<open>(year - 2000) mod 100\<close> and read as
  \<open>decoded + 2000\<close>. Fields are decoded in register order, so the error names the first
  offending field. A block that is not seven bytes long is a transport failure.
\<close>

definition encode_datetime :: "bool \<Rightarrow> int \<Rightarrow> struct_time \<Rightarrow> byte list" where
  "encode_datetime weekday_first weekday_start v =
     (let day = bcd_encode (tm_mday v);
          wd = word_of_int (tm_wday v + weekday_start) AND 0x07
      in [bcd_encode (tm_sec v), bcd_encode (tm_min v), bcd_encode (tm_hour v)]
         @ (if weekday_first then [wd, day] else [day, wd])
         @ [bcd_encode (tm_mon v), bcd_encode ((tm_year v - 2000) mod 100)])"

definition decode_datetime :: "bool \<Rightarrow> int \<Rightarrow> byte list \<Rightarrow> error + struct_time" where
  "decode_datetime weekday_first weekday_start bytes =
     (case bytes of
        [r0, r1, r2, r3, r4, r5, r6] \<Rightarrow>
          bind (bcd_decode Seconds (r0 AND 0x7F)) (\<lambda>s.
          bind (bcd_decode Minutes r1) (\<lambda>mi.
          bind (bcd_decode Hours r2) (\<lambda>h.
          bind (bcd_decode Day (if weekday_first then r4 else r3)) (\<lambda>d.
          bind (bcd_decode Month r5) (\<lambda>mo.
          bind (bcd_decode Year r6) (\<lambda>y.
            Inr \<lparr>tm_year = y + 2000, tm_mon = mo, tm_mday = d, tm_hour = h,
                 tm_min = mi, tm_sec = s,
                 tm_wday = uint ((if weekday_first then r3 else r4) AND 0x07) - weekday_start\<rparr>))))))
      | _ \<Rightarrow> Inl TransportError)"

text \<open>
  Modelled from the spec: the date-time descriptor, one read transaction of the seven
  bytes at the base address on get, one write transaction of all seven bytes on set.
\<close>

fun datetime_descriptor_get ::
  "datetime_descriptor \<Rightarrow> PCF85063A \<Rightarrow> bus \<Rightarrow> (error + struct_time) \<times> bus" where
  "datetime_descriptor_get (BCDDateTimeRegister register_address weekday_first weekday_start) self b =
     (case bus_write_then_read (device_address (i2c_device self)) [of_nat register_address] 7 b of
        (Inl e, b') \<Rightarrow> (Inl e, b')
      | (Inr bytes, b') \<Rightarrow> (decode_datetime weekday_first weekday_start bytes, b'))"

fun datetime_descriptor_set ::
  "datetime_descriptor \<Rightarrow> struct_time \<Rightarrow> PCF85063A \<Rightarrow> bus \<Rightarrow> (error + unit) \<times> bus" where
  "datetime_descriptor_set (BCDDateTimeRegister register_address weekday_first weekday_start) v self b =
     bus_write (device_address (i2c_device self))
       (of_nat register_address # encode_datetime weekday_first weekday_start v) b"

text \<open>
  Modelled from the spec: the alarm register group of sections 3 and 4.3, five bytes:
  seconds, minutes, hours, day, weekday, day and weekday in registers of their own. The
  top bit of each byte is that field's "disable comparison" flag, independent of the
  others; the rest is BCD (the weekday a plain 3-bit number). An alarm value gives each
  field its flag and its number. Only this variant (\<open>has_seconds\<close>, not
  \<open>weekday_shared\<close>) is described and modelled.
\<close>

type_synonym alarm_field = "bool \<times> int"

record alarm_time =
  al_sec :: alarm_field
  al_min :: alarm_field
  al_hour :: alarm_field
  al_mday :: alarm_field
  al_wday :: alarm_field

definition disable_bit :: "bool \<Rightarrow> byte" where
  "disable_bit disabled = (if disabled then 0x80 else 0)"

definition encode_alarm_field :: "alarm_field \<Rightarrow> byte" where
  "encode_alarm_field fld = disable_bit (fst fld) OR (bcd_encode (snd fld) AND 0x7F)"

definition decode_alarm_field :: "field_name \<Rightarrow> byte \<Rightarrow> error + alarm_field" where
  "decode_alarm_field f x = bind (bcd_decode f (x AND 0x7F)) (\<lambda>v. Inr (bit x 7, v))"

definition encode_alarm :: "int \<Rightarrow> alarm_time \<Rightarrow> byte list" where
  "encode_alarm weekday_start v =
     [encode_alarm_field (al_sec v), encode_alarm_field (al_min v),
      encode_alarm_field (al_hour v), encode_alarm_field (al_mday v),
      disable_bit (fst (al_wday v)) OR (word_of_int (snd (al_wday v) + weekday_start) AND 0x07)]"

definition decode_alarm :: "int \<Rightarrow> byte list \<Rightarrow> error + alarm_time" where
  "decode_alarm weekday_start bytes =
     (case bytes of
        [r0, r1, r2, r3, r4] \<Rightarrow>
          bind (decode_alarm_field Seconds r0) (\<lambda>s.
          bind (decode_alarm_field Minutes r1) (\<lambda>mi.
          bind (decode_alarm_field Hours r2) (\<lambda>h.
          bind (decode_alarm_field Day r3) (\<lambda>d.
            Inr \<lparr>al_sec = s, al_min = mi, al_hour = h, al_mday = d,
                 al_wday = (bit r4 7, uint (r4 AND 0x07) - weekday_start)\<rparr>))))
      | _ \<Rightarrow> Inl TransportError)"

fun alarm_descriptor_get ::
  "alarm_descriptor \<Rightarrow> PCF85063A \<Rightarrow> bus \<Rightarrow> (error + alarm_time) \<times> bus" where
  "alarm_descriptor_get (BCDAlarmTimeRegister register_address has_seconds weekday_shared weekday_start) self b =
     (if has_seconds \<and> \<not> weekday_shared then
        (case bus_write_then_read (device_address (i2c_device self)) [of_nat register_address] 5 b of
           (Inl e, b') \<Rightarrow> (Inl e, b')
         | (Inr bytes, b') \<Rightarrow> (decode_alarm weekday_start bytes, b'))
      else (Inl NotModelled, b))"

fun alarm_descriptor_set ::
  "alarm_descriptor \<Rightarrow> alarm_time \<Rightarrow> PCF85063A \<Rightarrow> bus \<Rightarrow> (error + unit) \<times> bus" where
  "alarm_descriptor_set (BCDAlarmTimeRegister register_address has_seconds weekday_shared weekday_start) v self b =
     (if has_seconds \<and> \<not> weekday_shared then
        bus_write (device_address (i2c_device self))
          (of_nat register_address # encode_alarm weekday_start v) b
      else (Inl NotModelled, b))"

section \<open>The datetime property\<close>

text \<open>
  \<^verbatim>\<open>@property def datetime(self): return self.datetime_register\<close> and
  \<^verbatim>\<open>@datetime.setter def datetime(self, value): self.lost_power = False;
  self.datetime_register = value\<close>. An exception raised by the first statement of the
  setter leaves the second one out.
\<close>

definition datetime_get :: "PCF85063A \<Rightarrow> bus \<Rightarrow> (error + struct_time) \<times> bus" where
  "datetime_get self b = datetime_descriptor_get datetime_register self b"

definition datetime_set :: "struct_time \<Rightarrow> PCF85063A \<Rightarrow> bus \<Rightarrow> (error + unit) \<times> bus" where
  "datetime_set v self b =
     (case set_attr (descriptor_of lost_power) (PyBool False) self b of
        (Inl e, b') \<Rightarrow> (Inl e, b')
      | (Inr u, b') \<Rightarrow> datetime_descriptor_set datetime_register v self b')"

section \<open>Calendar values, the register table and programs\<close>

text \<open>
  A valid calendar value: year 2000 to 2099, month 1 to 12, a day that the month has,
  weekday 0 to 6, hour 0 to 23, minute and second 0 to 59.
\<close>

definition is_leap :: "int \<Rightarrow> bool" where
  "is_leap y = (y mod 4 = 0 \<and> (y mod 100 \<noteq> 0 \<or> y mod 400 = 0))"

definition days_in_month :: "int \<Rightarrow> int \<Rightarrow> int" where
  "days_in_month y m =
     (if m = 2 then (if is_leap y then 29 else 28)
      else if m = 4 \<or> m = 6 \<or> m = 9 \<or> m = 11 then 30 else 31)"

definition valid_calendar :: "struct_time \<Rightarrow> bool" where
  "valid_calendar v =
     (2000 \<le> tm_year v \<and> tm_year v \<le> 2099 \<and> 1 \<le> tm_mon v \<and> tm_mon v \<le> 12 \<and>
      1 \<le> tm_mday v \<and> tm_mday v \<le> days_in_month (tm_year v) (tm_mon v) \<and>
      0 \<le> tm_wday v \<and> tm_wday v \<le> 6 \<and> 0 \<le> tm_hour v \<and> tm_hour v \<le> 23 \<and>
      0 \<le> tm_min v \<and> tm_min v \<le> 59 \<and> 0 \<le> tm_sec v \<and> tm_sec v \<le> 59)"

text \<open>
  The value of the class docstring, \<^verbatim>\<open>struct_time((2017, 10, 29, 15, 14, 15, 0, -1, -1))\<close>,
  and a chip whose registers all hold \<open>0xFF\<close> (so the power-lost flag is up), on a bus
  whose transactions fail as \<open>fs\<close> says.
\<close>

definition example_time :: struct_time where
  "example_time = \<lparr>tm_year = 2017, tm_mon = 10, tm_mday = 29, tm_hour = 15,
                    tm_min = 14, tm_sec = 15, tm_wday = 0\<rparr>"

definition example_bus :: "bool list \<Rightarrow> bus" where
  "example_bus fs = \<lparr>regs = (\<lambda>a. 0xFF), trace = [], faults = fs\<rparr>"

text \<open>
  A nibble of a BCD byte exceeds 9. The BCD fields of the date-time group, in register
  order, each with the byte that is decoded (the seconds without the power-lost flag;
  the weekday at register \<open>0x08\<close> is not BCD), and the fields whose byte is not BCD.
\<close>

definition invalid_bcd :: "byte \<Rightarrow> bool" where
  "invalid_bcd x = (9 < drop_bit 4 x AND 0xF \<or> 9 < x AND 0xF)"

definition bcd_fields :: "(nat \<Rightarrow> byte) \<Rightarrow> (field_name \<times> byte) list" where
  "bcd_fields r = [(Seconds, r 4 AND 0x7F), (Minutes, r 5), (Hours, r 6), (Day, r 7),
                   (Month, r 9), (Year, r 10)]"

definition offending :: "(nat \<Rightarrow> byte) \<Rightarrow> field_name list" where
  "offending r = map fst (filter (\<lambda>p. invalid_bcd (snd p)) (bcd_fields r))"

text \<open>
  Where a descriptor lives: register address, lowest bit, width, signedness.
\<close>

fun layout :: "descriptor \<Rightarrow> nat \<times> nat \<times> nat \<times> bool" where
  "layout (RWBit register_address n) = (register_address, n, 1, False)"
| "layout (RWBits num_bits register_address lowest_bit is_signed) =
     (register_address, lowest_bit, num_bits, is_signed)"

text \<open>
  The register map as the specification tabulates it (section 6), row by row: address,
  bits, width, signed; and the accessors that the table and section 4.1 describe, a
  boolean for a width of one bit and an integer otherwise.
\<close>

fun register_map :: "attribute \<Rightarrow> nat \<times> nat \<times> nat \<times> bool" where
  "register_map high_capacitance = (0x00, 0, 1, False)"
| "register_map calibration_schedule_per_minute = (0x02, 7, 1, False)"
| "register_map calibration = (0x02, 0, 7, True)"
| "register_map ram_byte = (0x03, 0, 8, False)"
| "register_map lost_power = (0x04, 7, 1, False)"
| "register_map alarm_interrupt = (0x01, 7, 1, False)"
| "register_map alarm_status = (0x01, 6, 1, False)"
| "register_map timerA_status = (0x01, 3, 1, False)"
| "register_map timerA_value = (0x10, 0, 8, False)"
| "register_map timerA_pulsed = (0x11, 0, 1, False)"
| "register_map timerA_interrupt = (0x11, 1, 1, False)"
| "register_map timerA_enabled = (0x11, 2, 1, False)"
| "register_map timerA_frequency = (0x11, 3, 2, False)"
| "register_map clockout_frequency = (0x01, 0, 3, False)"

definition map_get :: "attribute \<Rightarrow> PCF85063A \<Rightarrow> bus \<Rightarrow> (error + pyval) \<times> bus" where
  "map_get f self b =
     (case register_map f of (addr, offset, width, is_signed) \<Rightarrow>
        if width = 1 then map_result PyBool (read_bit addr offset self b)
        else map_result PyInt (read_bits addr offset width is_signed self b))"

definition map_set :: "attribute \<Rightarrow> pyval \<Rightarrow> PCF85063A \<Rightarrow> bus \<Rightarrow> (error + unit) \<times> bus" where
  "map_set f v self b =
     (case register_map f of (addr, offset, width, is_signed) \<Rightarrow>
        if width = 1 then write_bit addr offset (truthy v) self b
        else write_bits addr offset width is_signed (as_int v) self b)"

text \<open>
  A program using the driver: a sequence of accesses to its public attributes, each
  run on the bus that the one before left, whether or not that one raised.
\<close>

datatype call =
    Get attribute | Set attribute pyval
  | GetDatetime | SetDatetime struct_time
  | GetAlarm | SetAlarm alarm_time

fun perform :: "call \<Rightarrow> PCF85063A \<Rightarrow> bus \<Rightarrow> bus" where
  "perform (Get f) self b = snd (get_attr (descriptor_of f) self b)"
| "perform (Set f v) self b = snd (set_attr (descriptor_of f) v self b)"
| "perform GetDatetime self b = snd (datetime_get self b)"
| "perform (SetDatetime v) self b = snd (datetime_set v self b)"
| "perform GetAlarm self b = snd (alarm_descriptor_get alarm self b)"
| "perform (SetAlarm v) self b = snd (alarm_descriptor_set alarm v self b)"

fun run :: "call list \<Rightarrow> PCF85063A \<Rightarrow> bus \<Rightarrow> bus" where
  "run [] self b = b"
| "run (c # cs) self b = run cs self (perform c self b)"

text \<open>
  A chip whose registers all hold \<open>0x12\<close>, on a bus without faults: its alarm group
  reads as 12 in every BCD field and 2 as the weekday, no field disabled.
\<close>

definition alarm_bus :: bus where
  "alarm_bus = \<lparr>regs = (\<lambda>a. 0x12), trace = [], faults = []\<rparr>"

definition example_alarm :: alarm_time where
  "example_alarm = \<lparr>al_sec = (False, 12), al_min = (False, 12), al_hour = (False, 12),
                     al_mday = (False, 12), al_wday = (False, 2)\<rparr>"

section \<open>Bytes, nibbles and bits\<close>

lemma uint_byte_bound: "uint (x :: byte) < 256"
  using uint_bounded [of x] by simp

lemma uint_and_mask: "uint (x AND mask n :: byte) = uint x mod 2 ^ n"
proof -
  have "uint (x AND mask n) = uint (take_bit n x)" by (simp only: take_bit_eq_mask)
  also have "\<dots> = take_bit n (uint x)" by (rule unsigned_take_bit_eq)
  also have "\<dots> = uint x mod 2 ^ n" by (rule take_bit_eq_mod)
  finally show ?thesis .
qed

lemma uint_and_F: "uint (x AND 0xF :: byte) = uint x mod 16"
  using uint_and_mask [of x 4] by (simp add: mask_eq_exp_minus_1)

lemma uint_and_7F: "uint (x AND 0x7F :: byte) = uint x mod 128"
  using uint_and_mask [of x 7] by (simp add: mask_eq_exp_minus_1)

lemma uint_and_07: "uint (x AND 0x07 :: byte) = uint x mod 8"
  using uint_and_mask [of x 3] by (simp add: mask_eq_exp_minus_1)

lemma uint_drop_bit_byte: "uint (drop_bit n x :: byte) = uint x div 2 ^ n"
proof -
  have "uint (drop_bit n x) = drop_bit n (take_bit 8 (uint x))"
    using unsigned_drop_bit_eq [of n x, where ?'a = int] by simp
  also have "take_bit 8 (uint x) = uint x"
    using uint_byte_bound [of x] by (simp add: take_bit_int_eq_self)
  also have "drop_bit n (uint x) = uint x div 2 ^ n" by (rule drop_bit_eq_div)
  finally show ?thesis .
qed

lemma high_nibble_small: "uint (x :: byte) div 16 mod 16 = uint x div 16"
proof -
  have "uint x div 16 < 16" using uint_byte_bound [of x] by simp
  moreover have "0 \<le> uint x div 16"
    using uint_ge_0 [of x] by (simp add: pos_imp_zdiv_nonneg_iff)
  ultimately show ?thesis by simp
qed

lemma uint_byte_of_int: "0 \<le> k \<Longrightarrow> k < 256 \<Longrightarrow> uint (word_of_int k :: byte) = k"
  by (simp add: uint_word_of_int take_bit_eq_mod)

lemma bit7_iff: "bit (x :: byte) 7 \<longleftrightarrow> 128 \<le> uint x"
proof -
  have "bit x 7 \<longleftrightarrow> bit (uint x) 7" by (simp add: bit_uint_iff)
  also have "\<dots> \<longleftrightarrow> odd (uint x div 128)" by (simp add: bit_iff_odd)
  also have "\<dots> \<longleftrightarrow> 128 \<le> uint x"
  proof -
    have "uint x div 128 = 0 \<or> uint x div 128 = 1"
      using uint_byte_bound [of x] uint_ge_0 [of x] by auto
    then show ?thesis by auto
  qed
  finally show ?thesis .
qed

lemma bit_byte_high: "\<not> n < 8 \<Longrightarrow> \<not> bit (w :: byte) n"
  using bit_imp_le_length [of w n] by auto

subsection \<open>The BCD pair\<close>

lemma bcd_decode_uint:
  "bcd_decode f x =
     (if 9 < uint x div 16 \<or> 9 < uint x mod 16 then Inl (DecodeError f)
      else Inr ((uint x div 16) * 10 + uint x mod 16))"
  unfolding bcd_decode_def Let_def word_less_def
  by (simp add: uint_and_F uint_drop_bit_byte high_nibble_small)

lemma uint_bcd_encode:
  "0 \<le> n \<Longrightarrow> n \<le> 99 \<Longrightarrow> uint (bcd_encode n) = (n div 10) * 16 + n mod 10"
  unfolding bcd_encode_def by (rule uint_byte_of_int) auto

lemma bcd_roundtrip: "0 \<le> n \<Longrightarrow> n \<le> 99 \<Longrightarrow> bcd_decode f (bcd_encode n) = Inr n"
proof -
  assume a: "0 \<le> n" "n \<le> 99"
  have t: "0 \<le> n div 10" "n div 10 \<le> 9" using a by auto
  have o: "0 \<le> n mod 10" "n mod 10 \<le> 9" using a by auto
  have d: "((n div 10) * 16 + n mod 10) div 16 = n div 10" using t o by auto
  have m: "((n div 10) * 16 + n mod 10) mod 16 = n mod 10" using t o by auto
  show ?thesis using t o by (simp add: bcd_decode_uint uint_bcd_encode a d m)
qed

lemma uint_bcd_encode_small:
  assumes "0 \<le> n" "n \<le> 79"
  shows "uint (bcd_encode n) < 128"
proof -
  have "n div 10 \<le> 7" "n mod 10 \<le> 9" using assms by auto
  then have "(n div 10) * 16 + n mod 10 < 128" by linarith
  then show ?thesis using assms by (simp add: uint_bcd_encode)
qed

lemma bcd_encode_and_7F: "0 \<le> n \<Longrightarrow> n \<le> 79 \<Longrightarrow> bcd_encode n AND 0x7F = bcd_encode n"
proof -
  assume a: "0 \<le> n" "n \<le> 79"
  have "uint (bcd_encode n AND 0x7F) = uint (bcd_encode n)"
    using uint_bcd_encode_small [OF a] by (simp add: uint_and_7F)
  then show ?thesis by (simp only: word_uint_eq_iff)
qed

lemma bcd_encode_bit7: "0 \<le> n \<Longrightarrow> n \<le> 79 \<Longrightarrow> \<not> bit (bcd_encode n) 7"
  using uint_bcd_encode_small [of n] by (simp add: bit7_iff)

subsection \<open>One field inside a byte\<close>

lemma insert_field_frame:
  "\<not> (offset \<le> n \<and> n < offset + width) \<Longrightarrow>
   bit (insert_field offset width v x) n = bit x n"
proof (cases "n < 8")
  case True
  assume "\<not> (offset \<le> n \<and> n < offset + width)"
  with True show ?thesis by (auto simp: insert_field_def field_mask_def bit_simps)
next
  case False
  then show ?thesis by (simp add: bit_byte_high)
qed

lemma clear_bit7: "insert_field 7 (Suc 0) 0 x = x AND 0x7F"
proof -
  have h: "(- 129 :: byte) = 127" by simp
  have "x AND - 129 = x AND 127" by (simp only: h)
  then show ?thesis by (simp add: insert_field_def field_mask_def)
qed

section \<open>Transactions of the accessors\<close>

lemma next_fails_upd [simp]:
  "next_fails (b\<lparr>trace := t\<rparr>) = next_fails b"
  "next_fails (b\<lparr>regs := r\<rparr>) = next_fails b"
  "next_fails (b\<lparr>faults := fs\<rparr>) = (case fs of [] \<Rightarrow> False | f # x \<Rightarrow> f)"
  by (simp_all add: next_fails_def)

lemma fetch_7: "fetch a 7 r = [r a, r (a+1), r (a+2), r (a+3), r (a+4), r (a+5), r (a+6)]"
  by (simp add: fetch_def upt_conv_Cons numeral_eq_Suc)

lemma fetch_5: "fetch a 5 r = [r a, r (a+1), r (a+2), r (a+3), r (a+4)]"
  by (simp add: fetch_def upt_conv_Cons numeral_eq_Suc)

lemma read_byte_eq:
  "read_byte addr self b =
     (if next_fails b then (Inl TransportError, b\<lparr>faults := tl (faults b)\<rparr>)
      else (Inr (regs b (unat (of_nat addr :: byte))),
            b\<lparr>trace := trace b @ [WriteThenRead (device_address (i2c_device self)) [of_nat addr] 1],
              faults := tl (faults b)\<rparr>))"
  by (simp add: read_byte_def bus_write_then_read_def fetch_def)

lemma write_byte_eq:
  "write_byte addr x self b =
     (if next_fails b then (Inl TransportError, b\<lparr>faults := tl (faults b)\<rparr>)
      else (Inr (),
            b\<lparr>regs := (regs b)(unat (of_nat addr :: byte) := x),
              trace := trace b @ [Write (device_address (i2c_device self)) [of_nat addr, x]],
              faults := tl (faults b)\<rparr>))"
  by (simp add: write_byte_def bus_write_def)

text \<open>The setter of \<^verbatim>\<open>datetime\<close>, transaction by transaction.\<close>

lemma datetime_set_eq:
  "datetime_set v self b =
     (let d = device_address (i2c_device self);
          t1 = WriteThenRead d [4] 1;
          w1 = Write d [4, regs b 4 AND 0x7F];
          w2 = Write d (4 # encode_datetime False 0 v);
          b1 = b\<lparr>faults := tl (faults b)\<rparr>;
          b2 = b1\<lparr>faults := tl (faults b1)\<rparr>;
          b3 = b2\<lparr>faults := tl (faults b2)\<rparr>
      in if next_fails b then (Inl TransportError, b1)
         else if next_fails b1 then (Inl TransportError, b2\<lparr>trace := trace b @ [t1]\<rparr>)
         else if next_fails b2 then
           (Inl TransportError,
            b3\<lparr>regs := (regs b)(4 := regs b 4 AND 0x7F), trace := trace b @ [t1, w1]\<rparr>)
         else (Inr (),
               b3\<lparr>regs := store 4 (encode_datetime False 0 v) (regs b),
                  trace := trace b @ [t1, w1, w2]\<rparr>))"
  apply (simp add: datetime_set_def datetime_register_def write_bit_def read_byte_eq
      write_byte_eq clear_bit7 bus_write_def Let_def)
  apply (simp add: encode_datetime_def Let_def)
  done

lemma next_fails_make [simp]:
  "next_fails \<lparr>regs = r, trace = t, faults = fs\<rparr> = (case fs of [] \<Rightarrow> False | f # x \<Rightarrow> f)"
  by (simp add: next_fails_def)

lemma datetime_set_success:
  assumes "datetime_set v self b = (Inr u, b1)"
  shows "regs b1 = store 4 (encode_datetime False 0 v) (regs b)"
  using assms unfolding datetime_set_eq Let_def by (auto split: if_splits)

lemma store_encode_datetime:
  "store 4 (encode_datetime False 0 v) r =
     r(4 := bcd_encode (tm_sec v), 5 := bcd_encode (tm_min v), 6 := bcd_encode (tm_hour v),
       7 := bcd_encode (tm_mday v), 8 := word_of_int (tm_wday v) AND 0x07,
       9 := bcd_encode (tm_mon v), 10 := bcd_encode ((tm_year v - 2000) mod 100))"
  by (simp add: encode_datetime_def Let_def)


lemma no_fault_step:
  "True \<notin> set (take (Suc n) fs) \<Longrightarrow>
   \<not> (case fs of [] \<Rightarrow> False | f # x \<Rightarrow> f) \<and> True \<notin> set (take n (tl fs))"
  by (cases fs) auto

lemma no_fault_4:
  assumes "True \<notin> set (take 4 fs)"
  shows "\<not> (case fs of [] \<Rightarrow> False | f # x \<Rightarrow> f)"
    and "\<not> (case tl fs of [] \<Rightarrow> False | f # x \<Rightarrow> f)"
    and "\<not> (case tl (tl fs) of [] \<Rightarrow> False | f # x \<Rightarrow> f)"
    and "\<not> (case tl (tl (tl fs)) of [] \<Rightarrow> False | f # x \<Rightarrow> f)"
proof -
  have a: "True \<notin> set (take (Suc (Suc (Suc (Suc 0)))) fs)"
    using assms by (simp add: numeral_eq_Suc)
  note s1 = no_fault_step [OF a]
  note s2 = no_fault_step [OF s1 [THEN conjunct2]]
  note s3 = no_fault_step [OF s2 [THEN conjunct2]]
  note s4 = no_fault_step [OF s3 [THEN conjunct2]]
  show "\<not> (case fs of [] \<Rightarrow> False | f # x \<Rightarrow> f)" using s1 by (rule conjunct1)
  show "\<not> (case tl fs of [] \<Rightarrow> False | f # x \<Rightarrow> f)" using s2 by (rule conjunct1)
  show "\<not> (case tl (tl fs) of [] \<Rightarrow> False | f # x \<Rightarrow> f)" using s3 by (rule conjunct1)
  show "\<not> (case tl (tl (tl fs)) of [] \<Rightarrow> False | f # x \<Rightarrow> f)" using s4 by (rule conjunct1)
qed

lemma no_fault_3:
  assumes "True \<notin> set (take 3 fs)"
  shows "\<not> (case fs of [] \<Rightarrow> False | f # x \<Rightarrow> f)"
    and "\<not> (case tl fs of [] \<Rightarrow> False | f # x \<Rightarrow> f)"
    and "\<not> (case tl (tl fs) of [] \<Rightarrow> False | f # x \<Rightarrow> f)"
proof -
  have a: "True \<notin> set (take (Suc (Suc (Suc 0))) fs)"
    using assms by (simp add: numeral_eq_Suc)
  note s1 = no_fault_step [OF a]
  note s2 = no_fault_step [OF s1 [THEN conjunct2]]
  note s3 = no_fault_step [OF s2 [THEN conjunct2]]
  show "\<not> (case fs of [] \<Rightarrow> False | f # x \<Rightarrow> f)" using s1 by (rule conjunct1)
  show "\<not> (case tl fs of [] \<Rightarrow> False | f # x \<Rightarrow> f)" using s2 by (rule conjunct1)
  show "\<not> (case tl (tl fs) of [] \<Rightarrow> False | f # x \<Rightarrow> f)" using s3 by (rule conjunct1)
qed

lemma datetime_set_no_fault:
  assumes "True \<notin> set (take 3 (faults b))"
  shows "datetime_set v self b =
     (Inr (),
      b\<lparr>faults := tl (tl (tl (faults b))),
        regs := store 4 (encode_datetime False 0 v) (regs b),
        trace := trace b @
          [WriteThenRead (device_address (i2c_device self)) [4] 1,
           Write (device_address (i2c_device self)) [4, regs b 4 AND 0x7F],
           Write (device_address (i2c_device self)) (4 # encode_datetime False 0 v)]\<rparr>)"
proof -
  have n: "\<not> next_fails b" using no_fault_3(1) [OF assms] by (simp add: next_fails_def)
  show ?thesis
    unfolding datetime_set_eq Let_def
    using n no_fault_3(2) [OF assms] no_fault_3(3) [OF assms] by simp
qed

lemma take_3_of_4: "True \<notin> set (take 4 fs) \<Longrightarrow> True \<notin> set (take 3 fs)"
  using set_take_subset_set_take [of 3 4 fs] by auto

section \<open>Setting the date and time\<close>

text \<open>
  Claim C1, as the code has it. The setter of \<^verbatim>\<open>datetime\<close> first clears the power-lost
  flag, a read of register \<open>0x04\<close> followed by a write of that one byte with bit 7
  cleared, and then writes the seven date-time bytes from register \<open>0x04\<close> in one
  transaction: two bus writes, the flag first and the block second. A failing
  transaction ends the setter with a transport error. When the first write has gone
  through and the second has failed, the flag is cleared and every other register bit
  is as before: the time is not set. When none of its three transactions fails, the
  setter succeeds, whatever the value.
\<close>

theorem datetime_set_flag_then_block:
  assumes "datetime_set v self b = (r, b')"
  shows "(r = Inr () \<longrightarrow>
            trace b' = trace b @
              [WriteThenRead (device_address (i2c_device self)) [4] 1,
               Write (device_address (i2c_device self)) [4, regs b 4 AND 0x7F],
               Write (device_address (i2c_device self)) (4 # encode_datetime False 0 v)])
       \<and> (r \<noteq> Inr () \<longrightarrow>
            r = Inl TransportError \<and>
            (trace b' = trace b \<or>
             trace b' = trace b @ [WriteThenRead (device_address (i2c_device self)) [4] 1] \<or>
             trace b' = trace b @
               [WriteThenRead (device_address (i2c_device self)) [4] 1,
                Write (device_address (i2c_device self)) [4, regs b 4 AND 0x7F]]))
       \<and> (trace b' = trace b @
              [WriteThenRead (device_address (i2c_device self)) [4] 1,
               Write (device_address (i2c_device self)) [4, regs b 4 AND 0x7F]] \<longrightarrow>
            r = Inl TransportError \<and> regs b' = (regs b)(4 := regs b 4 AND 0x7F))
       \<and> (True \<notin> set (take 3 (faults b)) \<longrightarrow> r = Inr ())"
proof -
  have a: "(r = Inr () \<longrightarrow>
            trace b' = trace b @
              [WriteThenRead (device_address (i2c_device self)) [4] 1,
               Write (device_address (i2c_device self)) [4, regs b 4 AND 0x7F],
               Write (device_address (i2c_device self)) (4 # encode_datetime False 0 v)])
       \<and> (r \<noteq> Inr () \<longrightarrow>
            r = Inl TransportError \<and>
            (trace b' = trace b \<or>
             trace b' = trace b @ [WriteThenRead (device_address (i2c_device self)) [4] 1] \<or>
             trace b' = trace b @
               [WriteThenRead (device_address (i2c_device self)) [4] 1,
                Write (device_address (i2c_device self)) [4, regs b 4 AND 0x7F]]))
       \<and> (trace b' = trace b @
              [WriteThenRead (device_address (i2c_device self)) [4] 1,
               Write (device_address (i2c_device self)) [4, regs b 4 AND 0x7F]] \<longrightarrow>
            r = Inl TransportError \<and> regs b' = (regs b)(4 := regs b 4 AND 0x7F))"
    using assms unfolding datetime_set_eq Let_def by (auto split: if_splits)
  have c: "True \<notin> set (take 3 (faults b)) \<longrightarrow> r = Inr ()"
  proof
    assume "True \<notin> set (take 3 (faults b))"
    from datetime_set_no_fault [OF this, of v self] assms show "r = Inr ()" by simp
  qed
  show ?thesis using a c by blast
qed

theorem datetime_set_flag_then_block_witness:
  "True \<notin> set (take 3 (faults (example_bus [])))
   \<and> fst (datetime_set example_time init (example_bus [])) = Inr ()
   \<and> trace (snd (datetime_set example_time init (example_bus []))) =
     [WriteThenRead 0x51 [4] 1, Write 0x51 [4, 0x7F],
      Write 0x51 [4, 0x15, 0x14, 0x15, 0x29, 0x00, 0x10, 0x17]]
   \<and> fst (datetime_set example_time init (example_bus [False, False, True])) = Inl TransportError
   \<and> regs (snd (datetime_set example_time init (example_bus [False, False, True]))) =
       (\<lambda>a. 0xFF)(4 := 0x7F)"
proof -
  have h: "True \<notin> set (take 3 (faults (example_bus [])))"
    by (simp add: example_bus_def)
  have tr: "trace (snd (datetime_set example_time init (example_bus [False, False, True]))) =
      trace (example_bus [False, False, True]) @
        [WriteThenRead (device_address (i2c_device init)) [4] 1,
         Write (device_address (i2c_device init)) [4, regs (example_bus [False, False, True]) 4 AND 0x7F]]"
    by (simp add: datetime_set_eq example_bus_def Let_def)
  have enc: "encode_datetime False 0 example_time = [0x15, 0x14, 0x15, 0x29, 0x00, 0x10, 0x17]"
    by (simp add: encode_datetime_def example_time_def bcd_encode_def)
  have dev: "device_address (i2c_device init) = 0x51" by (simp add: init_def)
  have r4: "regs (example_bus fs) 4 AND 0x7F = 0x7F" for fs by (simp add: example_bus_def)
  note good = datetime_set_flag_then_block [OF prod.collapse [symmetric],
      of example_time init "example_bus []"]
  note bad = datetime_set_flag_then_block [OF prod.collapse [symmetric],
      of example_time init "example_bus [False, False, True]"]
  have ok: "fst (datetime_set example_time init (example_bus [])) = Inr ()"
    using good h by blast
  have g: "trace (snd (datetime_set example_time init (example_bus []))) =
     trace (example_bus []) @
     [WriteThenRead (device_address (i2c_device init)) [4] 1,
      Write (device_address (i2c_device init)) [4, regs (example_bus []) 4 AND 0x7F],
      Write (device_address (i2c_device init)) (4 # encode_datetime False 0 example_time)]"
    using good ok by blast
  have b: "fst (datetime_set example_time init (example_bus [False, False, True])) = Inl TransportError
     \<and> regs (snd (datetime_set example_time init (example_bus [False, False, True]))) =
       (regs (example_bus [False, False, True]))(4 := regs (example_bus [False, False, True]) 4 AND 0x7F)"
    using bad tr by blast
  have g': "trace (snd (datetime_set example_time init (example_bus []))) =
     [WriteThenRead 0x51 [4] 1, Write 0x51 [4, 0x7F],
      Write 0x51 [4, 0x15, 0x14, 0x15, 0x29, 0x00, 0x10, 0x17]]"
    unfolding g dev r4 enc by (simp add: example_bus_def)
  have b': "regs (snd (datetime_set example_time init (example_bus [False, False, True]))) =
       (\<lambda>a. 0xFF)(4 := 0x7F)"
    using b unfolding r4 by (simp add: example_bus_def)
  show ?thesis using h ok g' b b' by blast
qed

text \<open>
  The order stated in the claim, block first and flag second, is not the order of the
  code: on the example, the first write carries the single flag byte, and when the
  second write fails the flag is cleared and the seven registers do not hold the time.
\<close>

theorem datetime_set_block_first_counterexample:
  "filter is_write (trace (snd (datetime_set example_time init (example_bus [])))) =
     [Write 0x51 [4, 0x7F], Write 0x51 [4, 0x15, 0x14, 0x15, 0x29, 0x00, 0x10, 0x17]]
   \<and> filter is_write (trace (snd (datetime_set example_time init (example_bus [False, False, True])))) =
     [Write 0x51 [4, 0x7F]]
   \<and> \<not> bit (regs (snd (datetime_set example_time init (example_bus [False, False, True]))) 4) 7
   \<and> fetch 4 7 (regs (snd (datetime_set example_time init (example_bus [False, False, True]))))
       \<noteq> encode_datetime False 0 example_time"
  by (simp add: datetime_set_eq example_bus_def Let_def init_def fetch_7
      encode_datetime_def example_time_def bcd_encode_def bit7_iff)

text \<open>
  Claim C2. For every valid calendar value and every state of the chip, after a
  successful assignment to \<^verbatim>\<open>datetime\<close> bit 7 of register \<open>0x04\<close> is clear, and
  reading \<^verbatim>\<open>lost_power\<close> returns \<open>False\<close> (unless that read itself fails on the bus).
\<close>

theorem lost_power_false_after_datetime_set:
  assumes "valid_calendar v" and "datetime_set v self b = (Inr u, b1)"
  shows "\<not> bit (regs b1 4) 7
       \<and> fst (get_attr (descriptor_of lost_power) self b1) =
           (if next_fails b1 then Inl TransportError else Inr (PyBool False))"
proof -
  have sec: "0 \<le> tm_sec v" "tm_sec v \<le> 79" using assms(1) by (simp_all add: valid_calendar_def)
  have "regs b1 4 = bcd_encode (tm_sec v)"
    using datetime_set_success [OF assms(2)] by (simp add: store_encode_datetime)
  then have clear: "\<not> bit (regs b1 4) 7" using bcd_encode_bit7 [OF sec] by simp
  then show ?thesis
    by (simp add: read_bit_def read_byte_eq map_result_def)
qed


theorem lost_power_false_after_datetime_set_witness:
  "valid_calendar example_time
   \<and> datetime_set example_time init (example_bus []) =
       (Inr (), snd (datetime_set example_time init (example_bus [])))
   \<and> bit (regs (example_bus []) 4) 7
   \<and> fst (get_attr (descriptor_of lost_power) init (snd (datetime_set example_time init (example_bus [])))) =
        Inr (PyBool False)"
proof -
  have v: "valid_calendar example_time"
    by (simp add: valid_calendar_def example_time_def days_in_month_def)
  have ok: "datetime_set example_time init (example_bus []) =
       (Inr (), snd (datetime_set example_time init (example_bus [])))"
    by (simp add: datetime_set_eq example_bus_def Let_def)
  have nf: "\<not> next_fails (snd (datetime_set example_time init (example_bus [])))"
    by (simp add: datetime_set_eq example_bus_def Let_def)
  have up: "bit (regs (example_bus []) 4) 7"
    by (simp add: example_bus_def bit7_iff)
  show ?thesis
    using lost_power_false_after_datetime_set [OF v ok] v ok nf up by simp
qed

lemma datetime_get_eq:
  "datetime_get self b =
     (if next_fails b then (Inl TransportError, b\<lparr>faults := tl (faults b)\<rparr>)
      else (decode_datetime False 0 (fetch 4 7 (regs b)),
            b\<lparr>trace := trace b @ [WriteThenRead (device_address (i2c_device self)) [4] 7],
              faults := tl (faults b)\<rparr>))"
  by (simp add: datetime_get_def datetime_register_def bus_write_then_read_def)

lemma days_in_month_le: "days_in_month y m \<le> 31"
  by (simp add: days_in_month_def)

lemma weekday_roundtrip:
  assumes "0 \<le> w" "w \<le> 7"
  shows "uint ((word_of_int w :: byte) AND 0x07) = w"
proof -
  have "uint (word_of_int w :: byte) = w" using assms by (simp add: uint_byte_of_int)
  then show ?thesis using assms by (simp add: uint_and_07)
qed

lemma codec_roundtrip:
  assumes "valid_calendar v"
  shows "decode_datetime False 0 (encode_datetime False 0 v) = Inr v"
proof -
  note a = assms [unfolded valid_calendar_def]
  have d31: "tm_mday v \<le> 31" using a days_in_month_le [of "tm_year v" "tm_mon v"] by linarith
  have s: "bcd_decode Seconds (bcd_encode (tm_sec v) AND 0x7F) = Inr (tm_sec v)"
    using a by (simp add: bcd_encode_and_7F bcd_roundtrip)
  have mi: "bcd_decode Minutes (bcd_encode (tm_min v)) = Inr (tm_min v)"
    using a by (simp add: bcd_roundtrip)
  have h: "bcd_decode Hours (bcd_encode (tm_hour v)) = Inr (tm_hour v)"
    using a by (simp add: bcd_roundtrip)
  have d: "bcd_decode Day (bcd_encode (tm_mday v)) = Inr (tm_mday v)"
    using a d31 by (simp add: bcd_roundtrip)
  have mo: "bcd_decode Month (bcd_encode (tm_mon v)) = Inr (tm_mon v)"
    using a by (simp add: bcd_roundtrip)
  have ym: "(tm_year v - 2000) mod 100 = tm_year v - 2000" using a by simp
  have y: "bcd_decode Year (bcd_encode ((tm_year v - 2000) mod 100)) = Inr (tm_year v - 2000)"
    unfolding ym using a by (simp add: bcd_roundtrip)
  have w: "uint ((word_of_int (tm_wday v) :: byte) AND 0x07) = tm_wday v"
    using a by (simp add: weekday_roundtrip)
  show ?thesis
    by (simp add: decode_datetime_def encode_datetime_def Let_def bind_def s mi h d mo y w)
qed

lemma fetch_store_datetime:
  "fetch 4 7 (store 4 (encode_datetime False 0 v) r) = encode_datetime False 0 v"
  by (simp add: fetch_7 encode_datetime_def Let_def)

section \<open>Reading the date and time\<close>

text \<open>
  Claim C3. For every valid calendar value (year 2000 to 2099, month 1 to 12, a day of
  that month, weekday 0 to 6, hour 0 to 23, minute and second 0 to 59), decoding the
  seven bytes it is encoded into gives the value back; after it has been written
  through the setter of \<^verbatim>\<open>datetime\<close>, the getter returns it (unless the read fails on
  the bus); and when none of the four transactions of the setter and the getter fails,
  the setter accepts the value and the getter returns it.
\<close>

theorem datetime_roundtrip:
  assumes "valid_calendar v"
  shows "decode_datetime False 0 (encode_datetime False 0 v) = Inr v
       \<and> (datetime_set v self b = (Inr u, b1) \<longrightarrow>
            fst (datetime_get self b1) = (if next_fails b1 then Inl TransportError else Inr v))
       \<and> (True \<notin> set (take 4 (faults b)) \<longrightarrow>
            fst (datetime_set v self b) = Inr () \<and>
            fst (datetime_get self (snd (datetime_set v self b))) = Inr v)"
proof -
  have c: "decode_datetime False 0 (encode_datetime False 0 v) = Inr v"
    using assms by (rule codec_roundtrip)
  have s: "datetime_set v self b = (Inr u, b1) \<longrightarrow>
            fst (datetime_get self b1) = (if next_fails b1 then Inl TransportError else Inr v)"
  proof
    assume h: "datetime_set v self b = (Inr u, b1)"
    have "regs b1 = store 4 (encode_datetime False 0 v) (regs b)"
      using h by (rule datetime_set_success)
    then have "fetch 4 7 (regs b1) = encode_datetime False 0 v"
      by (simp only: fetch_store_datetime)
    then show "fst (datetime_get self b1) = (if next_fails b1 then Inl TransportError else Inr v)"
      using c by (simp add: datetime_get_eq)
  qed
  have t: "True \<notin> set (take 4 (faults b)) \<longrightarrow>
            fst (datetime_set v self b) = Inr () \<and>
            fst (datetime_get self (snd (datetime_set v self b))) = Inr v"
  proof
    assume h: "True \<notin> set (take 4 (faults b))"
    note e = datetime_set_no_fault [OF take_3_of_4 [OF h], of v self]
    have f: "fetch 4 7 (regs (snd (datetime_set v self b))) = encode_datetime False 0 v"
      unfolding e by (simp add: fetch_store_datetime)
    have n: "\<not> next_fails (snd (datetime_set v self b))"
      unfolding e using no_fault_4(4) [OF h] by simp
    show "fst (datetime_set v self b) = Inr () \<and>
          fst (datetime_get self (snd (datetime_set v self b))) = Inr v"
      using e f n c by (simp add: datetime_get_eq)
  qed
  show ?thesis using c s t by blast
qed

theorem datetime_roundtrip_witness:
  "valid_calendar example_time
   \<and> True \<notin> set (take 4 (faults (example_bus [])))
   \<and> fst (datetime_set example_time init (example_bus [])) = Inr ()
   \<and> decode_datetime False 0 (encode_datetime False 0 example_time) = Inr example_time
   \<and> fst (datetime_get init (snd (datetime_set example_time init (example_bus [])))) =
       Inr example_time
   \<and> valid_calendar \<lparr>tm_year = 2099, tm_mon = 12, tm_mday = 31, tm_hour = 23,
                       tm_min = 59, tm_sec = 59, tm_wday = 3\<rparr>
   \<and> fst (datetime_get init
           (snd (datetime_set \<lparr>tm_year = 2099, tm_mon = 12, tm_mday = 31, tm_hour = 23,
                                tm_min = 59, tm_sec = 59, tm_wday = 3\<rparr>
                   init (snd (datetime_get init (example_bus [True, False, False, False, False])))))) =
       Inr \<lparr>tm_year = 2099, tm_mon = 12, tm_mday = 31, tm_hour = 23,
            tm_min = 59, tm_sec = 59, tm_wday = 3\<rparr>"
proof -
  have v: "valid_calendar example_time"
    by (simp add: valid_calendar_def example_time_def days_in_month_def)
  have w: "valid_calendar \<lparr>tm_year = 2099, tm_mon = 12, tm_mday = 31, tm_hour = 23,
                       tm_min = 59, tm_sec = 59, tm_wday = 3\<rparr>"
    by (simp add: valid_calendar_def days_in_month_def)
  have h: "True \<notin> set (take 4 (faults (example_bus [])))"
    by (simp add: example_bus_def)
  have k: "True \<notin> set (take 4 (faults (snd (datetime_get init
              (example_bus [True, False, False, False, False])))))"
    by (simp add: datetime_get_eq example_bus_def)
  note t = datetime_roundtrip [OF v, of init "example_bus []"]
  have t3: "fst (datetime_set example_time init (example_bus [])) = Inr () \<and>
            fst (datetime_get init (snd (datetime_set example_time init (example_bus [])))) =
              Inr example_time"
    using t h by blast
  have t1: "decode_datetime False 0 (encode_datetime False 0 example_time) = Inr example_time"
    using t by blast
  note q = datetime_roundtrip [OF w, of init
      "snd (datetime_get init (example_bus [True, False, False, False, False]))"]
  have q3: "fst (datetime_get init
           (snd (datetime_set \<lparr>tm_year = 2099, tm_mon = 12, tm_mday = 31, tm_hour = 23,
                                tm_min = 59, tm_sec = 59, tm_wday = 3\<rparr>
                   init (snd (datetime_get init (example_bus [True, False, False, False, False])))))) =
       Inr \<lparr>tm_year = 2099, tm_mon = 12, tm_mday = 31, tm_hour = 23,
            tm_min = 59, tm_sec = 59, tm_wday = 3\<rparr>"
    using q k by blast
  show ?thesis using v w h t1 t3 q3 by blast
qed

lemma invalid_bcd_uint: "invalid_bcd x \<longleftrightarrow> 9 < uint x div 16 \<or> 9 < uint x mod 16"
  unfolding invalid_bcd_def word_less_def
  by (simp add: uint_and_F uint_drop_bit_byte high_nibble_small)

lemma bcd_decode_invalid: "invalid_bcd x \<Longrightarrow> bcd_decode f x = Inl (DecodeError f)"
  by (simp add: bcd_decode_def invalid_bcd_def Let_def)

lemma bcd_decode_valid: "\<not> invalid_bcd x \<Longrightarrow> \<exists>n. bcd_decode f x = Inr n"
  by (simp add: bcd_decode_def invalid_bcd_def Let_def)

lemma decode_datetime_offending:
  assumes "offending r \<noteq> []"
  shows "decode_datetime False 0 (fetch 4 7 r) = Inl (DecodeError (hd (offending r)))"
proof -
  have cases: "invalid_bcd (r 4 AND 0x7F) \<or> invalid_bcd (r 5) \<or> invalid_bcd (r 6) \<or>
      invalid_bcd (r 7) \<or> invalid_bcd (r 9) \<or> invalid_bcd (r 10)"
    using assms by (auto simp: offending_def bcd_fields_def split: if_splits)
  obtain s where s: "invalid_bcd (r 4 AND 0x7F) \<or> bcd_decode Seconds (r 4 AND 0x7F) = Inr s"
    using bcd_decode_valid [of "r 4 AND 0x7F" Seconds] by blast
  obtain mi where mi: "invalid_bcd (r 5) \<or> bcd_decode Minutes (r 5) = Inr mi"
    using bcd_decode_valid [of "r 5" Minutes] by blast
  obtain h where h: "invalid_bcd (r 6) \<or> bcd_decode Hours (r 6) = Inr h"
    using bcd_decode_valid [of "r 6" Hours] by blast
  obtain d where d: "invalid_bcd (r 7) \<or> bcd_decode Day (r 7) = Inr d"
    using bcd_decode_valid [of "r 7" Day] by blast
  obtain mo where mo: "invalid_bcd (r 9) \<or> bcd_decode Month (r 9) = Inr mo"
    using bcd_decode_valid [of "r 9" Month] by blast
  show ?thesis
    using cases s mi h d mo
    by (auto simp: fetch_7 decode_datetime_def bind_def offending_def bcd_fields_def
        bcd_decode_invalid)
qed

text \<open>
  Claim C4. When the seven bytes are read and a nibble of a BCD field exceeds 9, the
  getter of \<^verbatim>\<open>datetime\<close> fails with a \<open>DecodeError\<close> that names the first such field in
  register order; it returns no calendar value.
\<close>

theorem datetime_get_decode_error:
  assumes "\<not> next_fails b" and "offending (regs b) \<noteq> []"
  shows "fst (datetime_get self b) = Inl (DecodeError (hd (offending (regs b))))"
  using assms by (simp add: datetime_get_eq decode_datetime_offending)

theorem datetime_get_decode_error_witness:
  "\<not> next_fails ((example_bus [])\<lparr>regs := (\<lambda>a. 0x12)(4 := 0x6A)\<rparr>)
   \<and> offending (regs ((example_bus [])\<lparr>regs := (\<lambda>a. 0x12)(4 := 0x6A)\<rparr>)) = [Seconds]
   \<and> fst (datetime_get init ((example_bus [])\<lparr>regs := (\<lambda>a. 0x12)(4 := 0x6A)\<rparr>)) =
       Inl (DecodeError Seconds)"
proof -
  have nf: "\<not> next_fails ((example_bus [])\<lparr>regs := (\<lambda>a. 0x12)(4 := 0x6A)\<rparr>)"
    by (simp add: example_bus_def)
  have a: "(0x6A :: byte) AND 0x7F = 0x6A" by simp
  have off: "offending (regs ((example_bus [])\<lparr>regs := (\<lambda>a. 0x12)(4 := 0x6A)\<rparr>)) = [Seconds]"
    by (simp add: offending_def bcd_fields_def example_bus_def a invalid_bcd_uint)
  have ne: "offending (regs ((example_bus [])\<lparr>regs := (\<lambda>a. 0x12)(4 := 0x6A)\<rparr>)) \<noteq> []"
    by (simp only: off) simp
  show ?thesis
    using datetime_get_decode_error [OF nf ne, of init] nf off by simp
qed

text \<open>
  Claim C10. Reading \<^verbatim>\<open>datetime\<close> leaves every register of the chip as it was, the
  power-lost bit included, issues no write, and adds to the bus at most the one read
  of seven bytes at register \<open>0x04\<close>. The handle is an argument only: the getter
  returns a result and the bus, nothing of the driver.
\<close>

theorem datetime_get_reads_only:
  "regs (snd (datetime_get self b)) = regs b
   \<and> filter is_write (trace (snd (datetime_get self b))) = filter is_write (trace b)
   \<and> trace (snd (datetime_get self b)) =
       (if next_fails b then trace b
        else trace b @ [WriteThenRead (device_address (i2c_device self)) [4] 7])"
  by (simp add: datetime_get_eq)

theorem datetime_get_reads_only_witness:
  "regs (snd (datetime_get init (example_bus []))) = (\<lambda>a. 0xFF)
   \<and> bit (regs (snd (datetime_get init (example_bus []))) 4) 7
   \<and> trace (snd (datetime_get init (example_bus []))) = [WriteThenRead 0x51 [4] 7]"
proof -
  have nf: "\<not> next_fails (example_bus [])" by (simp add: example_bus_def)
  have r: "regs (example_bus []) = (\<lambda>a. 0xFF)" "trace (example_bus []) = []"
    by (simp_all add: example_bus_def)
  have dev: "device_address (i2c_device init) = 0x51" by (simp add: init_def)
  have up: "bit (0xFF :: byte) 7" by (simp add: bit7_iff)
  show ?thesis
    using datetime_get_reads_only [of init "example_bus []"] nf up
    by (simp add: r dev)
qed

lemma unat_of_nat_byte: "addr < 256 \<Longrightarrow> unat (of_nat addr :: byte) = addr"
  by (simp add: unat_of_nat take_bit_eq_mod)

lemma write_bits_eq:
  "addr < 256 \<Longrightarrow> write_bits addr offset width sg v self b =
     (if next_fails b then (Inl TransportError, b\<lparr>faults := tl (faults b)\<rparr>)
      else if next_fails (b\<lparr>faults := tl (faults b)\<rparr>) then
        (Inl TransportError,
         b\<lparr>trace := trace b @ [WriteThenRead (device_address (i2c_device self)) [of_nat addr] 1],
           faults := tl (tl (faults b))\<rparr>)
      else (Inr (),
            b\<lparr>regs := (regs b)(addr := insert_field offset width v (regs b addr)),
              trace := trace b @
                [WriteThenRead (device_address (i2c_device self)) [of_nat addr] 1,
                 Write (device_address (i2c_device self))
                   [of_nat addr, insert_field offset width v (regs b addr)]],
              faults := tl (tl (faults b))\<rparr>))"
  by (simp add: write_bits_def read_byte_eq write_byte_eq unat_of_nat_byte)

lemma write_bit_as_bits:
  "write_bit addr n v self b = write_bits addr n 1 False (if v then 1 else 0) self b"
  by (simp only: write_bit_def write_bits_def)


lemma write_bits_frame:
  assumes "addr < 256" and "write_bits addr offset width sg v self b = (r, b')"
  shows "(\<forall>a. a \<noteq> addr \<longrightarrow> regs b' a = regs b a)
       \<and> (\<forall>n. \<not> (offset \<le> n \<and> n < offset + width) \<longrightarrow>
              bit (regs b' addr) n = bit (regs b addr) n)"
  using assms(2) unfolding write_bits_eq [OF assms(1)]
  by (auto simp: insert_field_frame split: if_splits)

lemma set_attr_frame:
  assumes "layout d = (addr, offset, width, sg)" and "addr < 256"
    and "set_attr d v self b = (r, b')"
  shows "(\<forall>a. a \<noteq> addr \<longrightarrow> regs b' a = regs b a)
       \<and> (\<forall>n. \<not> (offset \<le> n \<and> n < offset + width) \<longrightarrow>
              bit (regs b' addr) n = bit (regs b addr) n)"
proof (cases d)
  case (RWBit a n)
  with assms show ?thesis
    using write_bits_frame [of addr offset 1 False "if truthy v then 1 else 0" self b r b']
    by (simp add: write_bit_as_bits)
next
  case (RWBits w a l s)
  with assms show ?thesis
    using write_bits_frame [of addr offset width sg "as_int v" self b r b']
    by simp
qed

lemma layout_addr: "layout (descriptor_of f) = (addr, offset, width, sg) \<Longrightarrow> addr < 256"
  by (cases f) auto

section \<open>Bit and field attributes\<close>

text \<open>
  Claim C7. Writing an attribute of the driver, whatever the value and whatever the
  register held before, leaves every other register as it was and, in its own
  register, every bit outside the span of the field: so for \<^verbatim>\<open>timerA_frequency\<close> (2 bits
  from offset 3 of register \<open>0x11\<close>) and \<^verbatim>\<open>clockout_frequency\<close> (3 bits from offset 0 of
  register \<open>0x01\<close>), and for the single bits as well.
\<close>

theorem field_write_isolated:
  assumes "layout (descriptor_of f) = (addr, offset, width, sg)"
    and "set_attr (descriptor_of f) v self b = (r, b')"
  shows "(\<forall>a. a \<noteq> addr \<longrightarrow> regs b' a = regs b a)
       \<and> (\<forall>n. \<not> (offset \<le> n \<and> n < offset + width) \<longrightarrow>
              bit (regs b' addr) n = bit (regs b addr) n)"
  using set_attr_frame [OF assms(1) layout_addr [OF assms(1)] assms(2)] .





lemma in_range7: "- 64 \<le> (v :: int) \<Longrightarrow> v \<le> 63 \<Longrightarrow> (v + 64) mod 128 - 64 = v"
  by simp



lemma set_attr_example_ok:
  "layout (descriptor_of f) = (addr, offset, width, sg) \<Longrightarrow>
   set_attr (descriptor_of f) v init (example_bus []) =
     (Inr (), snd (set_attr (descriptor_of f) v init (example_bus [])))
   \<and> \<not> next_fails (snd (set_attr (descriptor_of f) v init (example_bus [])))"
  by (cases f) (simp_all add: write_bit_as_bits write_bits_eq example_bus_def)


theorem field_write_isolated_witness:
  "layout (descriptor_of timerA_frequency) = (0x11, 3, 2, False)
   \<and> fst (set_attr (descriptor_of timerA_frequency) (PyInt 0) init (example_bus [])) = Inr ()
   \<and> regs (snd (set_attr (descriptor_of timerA_frequency) (PyInt 0) init (example_bus []))) 0x10 =
       regs (example_bus []) 0x10
   \<and> bit (regs (snd (set_attr (descriptor_of timerA_frequency) (PyInt 0) init (example_bus []))) 0x11) 2 =
       bit (regs (example_bus []) 0x11) 2
   \<and> bit (regs (snd (set_attr (descriptor_of timerA_frequency) (PyInt 0) init (example_bus []))) 0x11) 5 =
       bit (regs (example_bus []) 0x11) 5
   \<and> regs (snd (set_attr (descriptor_of timerA_frequency) (PyInt 0) init (example_bus []))) 0x11 = 0xE7"
proof -
  have l: "layout (descriptor_of timerA_frequency) = (0x11, 3, 2, False)" by simp
  note ok = set_attr_example_ok [OF l, of "PyInt 0"]
  note fr = field_write_isolated [OF l ok [THEN conjunct1]]
  have f: "fst (set_attr (descriptor_of timerA_frequency) (PyInt 0) init (example_bus [])) = Inr ()"
    using ok by (metis fst_conv)
  have a: "regs (snd (set_attr (descriptor_of timerA_frequency) (PyInt 0) init (example_bus []))) 0x10 =
       regs (example_bus []) 0x10"
    using fr by simp
  have b2: "bit (regs (snd (set_attr (descriptor_of timerA_frequency) (PyInt 0) init (example_bus []))) 0x11) 2 =
       bit (regs (example_bus []) 0x11) 2"
    using fr by simp
  have b5: "bit (regs (snd (set_attr (descriptor_of timerA_frequency) (PyInt 0) init (example_bus []))) 0x11) 5 =
       bit (regs (example_bus []) 0x11) 5"
    using fr by simp
  have m: "insert_field 3 2 0 (0xFF :: byte) = 0xE7"
    by (simp add: insert_field_def field_mask_def mask_eq_exp_minus_1)
  have v: "regs (snd (set_attr (descriptor_of timerA_frequency) (PyInt 0) init (example_bus []))) 0x11 = 0xE7"
    by (simp add: write_bits_eq example_bus_def m)
  show ?thesis using l f a b2 b5 v by blast
qed

lemma alarm_get_eq:
  "alarm_descriptor_get alarm self b =
     (if next_fails b then (Inl TransportError, b\<lparr>faults := tl (faults b)\<rparr>)
      else (decode_alarm 0 (fetch 11 5 (regs b)),
            b\<lparr>trace := trace b @ [WriteThenRead (device_address (i2c_device self)) [0x0B] 5],
              faults := tl (faults b)\<rparr>))"
  by (simp add: alarm_def bus_write_then_read_def)

lemma alarm_set_eq:
  "alarm_descriptor_set alarm v self b =
     (if next_fails b then (Inl TransportError, b\<lparr>faults := tl (faults b)\<rparr>)
      else (Inr (),
            b\<lparr>regs := store 11 (encode_alarm 0 v) (regs b),
              trace := trace b @ [Write (device_address (i2c_device self)) (0x0B # encode_alarm 0 v)],
              faults := tl (faults b)\<rparr>))"
  by (simp add: alarm_def bus_write_def)

lemma datetime_descriptor_set_eq:
  "datetime_descriptor_set datetime_register v self b =
     (if next_fails b then (Inl TransportError, b\<lparr>faults := tl (faults b)\<rparr>)
      else (Inr (),
            b\<lparr>regs := store 4 (encode_datetime False 0 v) (regs b),
              trace := trace b @ [Write (device_address (i2c_device self)) (0x04 # encode_datetime False 0 v)],
              faults := tl (faults b)\<rparr>))"
  by (simp add: datetime_register_def bus_write_def)

lemma store_encode_alarm:
  "store 11 (encode_alarm 0 v) r =
     r(11 := encode_alarm_field (al_sec v), 12 := encode_alarm_field (al_min v),
       13 := encode_alarm_field (al_hour v), 14 := encode_alarm_field (al_mday v),
       15 := disable_bit (fst (al_wday v)) OR (word_of_int (snd (al_wday v)) AND 0x07))"
  by (simp add: encode_alarm_def)

lemma map_get_eq: "get_attr (descriptor_of f) self b = map_get f self b"
  by (cases f) (simp_all add: map_get_def)

lemma map_set_eq: "set_attr (descriptor_of f) v self b = map_set f v self b"
  by (cases f) (simp_all add: map_set_def)

lemma layout_eq: "layout (descriptor_of f) = register_map f"
  by (cases f) simp_all

section \<open>The register map\<close>

text \<open>
  Claim C5. Every bit and field attribute of the driver sits at the register address,
  bit offset, width and signedness of the specification's table, and reading or
  writing it is the table's access. The date-time block is read and written as 7
  bytes from register \<open>0x04\<close>; the alarm block as 5 bytes from register \<open>0x0B\<close>, with
  the day in register \<open>0x0E\<close> and the weekday in register \<open>0x0F\<close>.
\<close>

theorem register_map_exact:
  "layout (descriptor_of f) = register_map f
   \<and> get_attr (descriptor_of f) self b = map_get f self b
   \<and> set_attr (descriptor_of f) v self b = map_set f v self b
   \<and> trace (snd (datetime_get self b)) =
       (if next_fails b then trace b
        else trace b @ [WriteThenRead (device_address (i2c_device self)) [0x04] 7])
   \<and> trace (snd (datetime_descriptor_set datetime_register t self b)) =
       (if next_fails b then trace b
        else trace b @ [Write (device_address (i2c_device self)) (0x04 # encode_datetime False 0 t)])
   \<and> length (encode_datetime False 0 t) = 7
   \<and> trace (snd (alarm_descriptor_get alarm self b)) =
       (if next_fails b then trace b
        else trace b @ [WriteThenRead (device_address (i2c_device self)) [0x0B] 5])
   \<and> trace (snd (alarm_descriptor_set alarm a self b)) =
       (if next_fails b then trace b
        else trace b @ [Write (device_address (i2c_device self)) (0x0B # encode_alarm 0 a)])
   \<and> length (encode_alarm 0 a) = 5
   \<and> regs (snd (alarm_descriptor_set alarm a self b)) 0x0E =
       (if next_fails b then regs b 0x0E else encode_alarm_field (al_mday a))
   \<and> regs (snd (alarm_descriptor_set alarm a self b)) 0x0F =
       (if next_fails b then regs b 0x0F
        else disable_bit (fst (al_wday a)) OR (word_of_int (snd (al_wday a)) AND 0x07))"
proof -
  have 1: "trace (snd (datetime_get self b)) =
       (if next_fails b then trace b
        else trace b @ [WriteThenRead (device_address (i2c_device self)) [0x04] 7])"
    by (simp add: datetime_get_eq)
  have 2: "trace (snd (datetime_descriptor_set datetime_register t self b)) =
       (if next_fails b then trace b
        else trace b @ [Write (device_address (i2c_device self)) (0x04 # encode_datetime False 0 t)])"
    by (simp add: datetime_descriptor_set_eq)
  have 3: "length (encode_datetime False 0 t) = 7"
    by (simp add: encode_datetime_def Let_def)
  have 4: "trace (snd (alarm_descriptor_get alarm self b)) =
       (if next_fails b then trace b
        else trace b @ [WriteThenRead (device_address (i2c_device self)) [0x0B] 5])"
    by (simp add: alarm_get_eq)
  have 5: "trace (snd (alarm_descriptor_set alarm a self b)) =
       (if next_fails b then trace b
        else trace b @ [Write (device_address (i2c_device self)) (0x0B # encode_alarm 0 a)])"
    by (simp add: alarm_set_eq)
  have 6: "length (encode_alarm 0 a) = 5"
    by (simp add: encode_alarm_def)
  have 7: "regs (snd (alarm_descriptor_set alarm a self b)) 0x0E =
       (if next_fails b then regs b 0x0E else encode_alarm_field (al_mday a))"
    by (simp add: alarm_set_eq store_encode_alarm)
  have 8: "regs (snd (alarm_descriptor_set alarm a self b)) 0x0F =
       (if next_fails b then regs b 0x0F
        else disable_bit (fst (al_wday a)) OR (word_of_int (snd (al_wday a)) AND 0x07))"
    by (simp add: alarm_set_eq store_encode_alarm)
  show ?thesis
    using layout_eq [of f] map_get_eq [of f self b] map_set_eq [of f v self b] 1 2 3 4 5 6 7 8
    by blast
qed

theorem register_map_exact_witness:
  "layout (descriptor_of calibration) = (0x02, 0, 7, True)
   \<and> layout (descriptor_of timerA_frequency) = (0x11, 3, 2, False)
   \<and> trace (snd (datetime_get init (example_bus []))) = [WriteThenRead 0x51 [0x04] 7]
   \<and> trace (snd (alarm_descriptor_get alarm init (example_bus []))) = [WriteThenRead 0x51 [0x0B] 5]"
proof -
  have nf: "\<not> next_fails (example_bus [])" "trace (example_bus []) = []"
    by (simp_all add: example_bus_def)
  have dev: "device_address (i2c_device init) = 0x51" by (simp add: init_def)
  note a = register_map_exact [of calibration init "example_bus []"]
  note b = register_map_exact [of timerA_frequency init "example_bus []"]
  have 1: "layout (descriptor_of calibration) = (0x02, 0, 7, True)"
    using a [THEN conjunct1] by simp
  have 2: "layout (descriptor_of timerA_frequency) = (0x11, 3, 2, False)"
    using b [THEN conjunct1] by simp
  have 3: "trace (snd (datetime_get init (example_bus []))) = [WriteThenRead 0x51 [0x04] 7]"
    using a [THEN conjunct2, THEN conjunct2, THEN conjunct2, THEN conjunct1] nf dev by simp
  have 4: "trace (snd (alarm_descriptor_get alarm init (example_bus []))) = [WriteThenRead 0x51 [0x0B] 5]"
    using a [THEN conjunct2, THEN conjunct2, THEN conjunct2, THEN conjunct2, THEN conjunct2,
        THEN conjunct2, THEN conjunct1] nf dev by simp
  show ?thesis using 1 2 3 4 by blast
qed

lemma snd_map_result: "snd (map_result g r) = snd r"
  by (cases r; cases "fst r") (auto simp: map_result_def)

lemma trace_read_byte:
  "\<forall>t\<in>set (trace b). device_of t = device_address (i2c_device self) \<Longrightarrow>
   \<forall>t\<in>set (trace (snd (read_byte addr self b))). device_of t = device_address (i2c_device self)"
  by (simp add: read_byte_eq)

lemma trace_read_bit:
  "\<forall>t\<in>set (trace b). device_of t = device_address (i2c_device self) \<Longrightarrow>
   \<forall>t\<in>set (trace (snd (read_bit addr n self b))). device_of t = device_address (i2c_device self)"
  by (simp add: read_bit_def read_byte_eq)

lemma trace_read_bits:
  "\<forall>t\<in>set (trace b). device_of t = device_address (i2c_device self) \<Longrightarrow>
   \<forall>t\<in>set (trace (snd (read_bits addr offset width sg self b))). device_of t = device_address (i2c_device self)"
  by (simp add: read_bits_def read_byte_eq)

lemma trace_write_bits:
  "\<forall>t\<in>set (trace b). device_of t = device_address (i2c_device self) \<Longrightarrow>
   \<forall>t\<in>set (trace (snd (write_bits addr offset width sg v self b))). device_of t = device_address (i2c_device self)"
  by (simp add: write_bits_def read_byte_eq write_byte_eq)

lemma trace_get_attr:
  assumes "\<forall>t\<in>set (trace b). device_of t = device_address (i2c_device self)"
  shows "\<forall>t\<in>set (trace (snd (get_attr d self b))). device_of t = device_address (i2c_device self)"
proof (cases d)
  case (RWBit a n)
  have "snd (get_attr d self b) = snd (read_bit a n self b)"
    by (simp only: RWBit get_attr.simps snd_map_result)
  then show ?thesis using trace_read_bit [OF assms, of a n] by (simp only:)
next
  case (RWBits w a l s)
  have "snd (get_attr d self b) = snd (read_bits a l w s self b)"
    by (simp only: RWBits get_attr.simps snd_map_result)
  then show ?thesis using trace_read_bits [OF assms, of a l w s] by (simp only:)
qed

lemma trace_set_attr:
  assumes "\<forall>t\<in>set (trace b). device_of t = device_address (i2c_device self)"
  shows "\<forall>t\<in>set (trace (snd (set_attr d v self b))). device_of t = device_address (i2c_device self)"
proof (cases d)
  case (RWBit a n)
  have "snd (set_attr d v self b) = snd (write_bits a n 1 False (if truthy v then 1 else 0) self b)"
    by (simp only: RWBit set_attr.simps write_bit_as_bits)
  then show ?thesis
    using trace_write_bits [OF assms, of a n 1 False "if truthy v then 1 else 0"] by (simp only:)
next
  case (RWBits w a l s)
  have "snd (set_attr d v self b) = snd (write_bits a l w s (as_int v) self b)"
    by (simp only: RWBits set_attr.simps)
  then show ?thesis using trace_write_bits [OF assms, of a l w s "as_int v"] by (simp only:)
qed

lemma trace_datetime_set:
  "\<forall>t\<in>set (trace b). device_of t = device_address (i2c_device self) \<Longrightarrow>
   \<forall>t\<in>set (trace (snd (datetime_set v self b))). device_of t = device_address (i2c_device self)"
  by (simp add: datetime_set_eq Let_def)

lemma trace_perform:
  "\<forall>t\<in>set (trace b). device_of t = device_address (i2c_device self) \<Longrightarrow>
   \<forall>t\<in>set (trace (perform c self b)). device_of t = device_address (i2c_device self)"
proof (cases c)
  case (Get f)
  assume "\<forall>t\<in>set (trace b). device_of t = device_address (i2c_device self)"
  then show ?thesis unfolding Get perform.simps by (rule trace_get_attr)
next
  case (Set f v)
  assume "\<forall>t\<in>set (trace b). device_of t = device_address (i2c_device self)"
  then show ?thesis unfolding Set perform.simps by (rule trace_set_attr)
next
  case GetDatetime
  assume "\<forall>t\<in>set (trace b). device_of t = device_address (i2c_device self)"
  then show ?thesis using GetDatetime by (simp add: datetime_get_eq)
next
  case (SetDatetime v)
  assume "\<forall>t\<in>set (trace b). device_of t = device_address (i2c_device self)"
  then show ?thesis unfolding SetDatetime perform.simps by (rule trace_datetime_set)
next
  case GetAlarm
  assume "\<forall>t\<in>set (trace b). device_of t = device_address (i2c_device self)"
  then show ?thesis using GetAlarm by (simp add: alarm_get_eq)
next
  case (SetAlarm v)
  assume "\<forall>t\<in>set (trace b). device_of t = device_address (i2c_device self)"
  then show ?thesis using SetAlarm by (simp add: alarm_set_eq)
qed

lemma trace_run:
  "\<forall>t\<in>set (trace b). device_of t = device_address (i2c_device self) \<Longrightarrow>
   \<forall>t\<in>set (trace (run cs self b)). device_of t = device_address (i2c_device self)"
proof (induction cs arbitrary: b)
  case Nil
  then show ?case by simp
next
  case (Cons c cs)
  from Cons.prems have "\<forall>t\<in>set (trace (perform c self b)). device_of t = device_address (i2c_device self)"
    by (rule trace_perform)
  then have "\<forall>t\<in>set (trace (run cs self (perform c self b))). device_of t = device_address (i2c_device self)"
    by (rule Cons.IH)
  then show ?case by (simp only: run.simps)
qed

section \<open>The device address\<close>

text \<open>
  Claim C9. The handle made by the constructor holds the device address \<open>0x51\<close>, and
  whatever sequence of attribute accesses a program makes through it, every
  transaction it adds to the bus is addressed to \<open>0x51\<close>.
\<close>

theorem every_transaction_to_0x51:
  assumes "\<forall>t\<in>set (trace b). device_of t = 0x51"
  shows "device_address (i2c_device init) = 0x51
       \<and> (\<forall>t\<in>set (trace (run cs init b)). device_of t = 0x51)"
proof -
  have d: "device_address (i2c_device init) = 0x51" by (simp add: init_def)
  show ?thesis using trace_run [of b init cs] assms d by simp
qed

theorem every_transaction_to_0x51_witness:
  "trace (example_bus []) = []
   \<and> length (trace (run [SetDatetime example_time, GetDatetime, Get lost_power, GetAlarm]
                 init (example_bus []))) = 6
   \<and> list_all (\<lambda>t. device_of t = 0x51)
       (trace (run [SetDatetime example_time, GetDatetime, Get lost_power, GetAlarm]
                 init (example_bus [])))"
proof -
  have e: "trace (example_bus []) = []" by (simp add: example_bus_def)
  then have h: "\<forall>t\<in>set (trace (example_bus [])). device_of t = 0x51" by simp
  have l: "length (trace (run [SetDatetime example_time, GetDatetime, Get lost_power, GetAlarm]
                 init (example_bus []))) = 6"
    by (simp add: datetime_set_eq datetime_get_eq alarm_get_eq read_bit_def read_byte_eq
        map_result_def Let_def example_bus_def)
  show ?thesis
    using every_transaction_to_0x51 [OF h,
        of "[SetDatetime example_time, GetDatetime, Get lost_power, GetAlarm]"] e l
    by (simp add: list_all_iff)
qed

section \<open>The alarm\<close>

lemma bit_int_7F: "bit (0x7F :: int) n \<longleftrightarrow> n < 7"
proof -
  have "(0x7F :: int) = mask 7" by (simp add: mask_eq_exp_minus_1)
  then have "bit (0x7F :: int) n = bit (mask 7 :: int) n" by (simp only:)
  also have "\<dots> \<longleftrightarrow> n < 7" by (simp only: bit_mask_iff) simp
  finally show ?thesis .
qed

lemma bit_int_07: "bit (0x07 :: int) n \<longleftrightarrow> n < 3"
proof -
  have "(0x07 :: int) = mask 3" by (simp add: mask_eq_exp_minus_1)
  then have "bit (0x07 :: int) n = bit (mask 3 :: int) n" by (simp only:)
  also have "\<dots> \<longleftrightarrow> n < 3" by (simp only: bit_mask_iff) simp
  finally show ?thesis .
qed

lemma bit_int_80: "bit (0x80 :: int) n \<longleftrightarrow> n = 7"
proof -
  have "(0x80 :: int) = 2 ^ 7" by simp
  then have "bit (0x80 :: int) n = bit (2 ^ 7 :: int) n" by (simp only:)
  also have "\<dots> \<longleftrightarrow> n = 7" by (simp only: bit_exp_iff) auto
  finally show ?thesis .
qed

lemma bit_disable_bit: "bit (disable_bit d) n \<longleftrightarrow> d \<and> n = 7"
  by (auto simp: disable_bit_def bit_int_80)

lemma recompose_7F: "disable_bit (bit x 7) OR (x AND 0x7F) = x"
proof (rule bit_eqI)
  fix n :: nat
  have "n < 7 \<or> n = 7 \<or> \<not> n < 8" by arith
  then show "bit (disable_bit (bit x 7) OR (x AND 0x7F)) n = bit x n"
    by (auto simp: bit_or_iff bit_and_iff bit_disable_bit bit_int_7F bit_byte_high)
qed

lemma flag_and_7F: "(disable_bit d OR (y AND 0x7F)) AND 0x7F = y AND 0x7F"
  by (rule bit_eqI) (auto simp: bit_or_iff bit_and_iff bit_disable_bit bit_int_7F)

lemma flag_bit7_7F: "bit (disable_bit d OR (y AND 0x7F)) 7 = d"
  by (simp add: bit_or_iff bit_and_iff bit_disable_bit bit_int_7F)

lemma flag_and_07: "(disable_bit d OR (y AND 0x07)) AND 0x07 = y AND 0x07"
  by (rule bit_eqI) (auto simp: bit_or_iff bit_and_iff bit_disable_bit bit_int_07)

lemma flag_bit7_07: "bit (disable_bit d OR (y AND 0x07)) 7 = d"
  by (simp add: bit_or_iff bit_and_iff bit_disable_bit bit_int_07)

lemma bcd_encode_decode:
  assumes "bcd_decode f x = Inr n"
  shows "bcd_encode n = x"
proof -
  define hi lo where "hi = uint x div 16" and "lo = uint x mod 16"
  have r: "\<not> 9 < hi" "\<not> 9 < lo" "n = hi * 10 + lo"
    using assms unfolding bcd_decode_uint hi_def lo_def by (auto split: if_splits)
  have p: "0 \<le> hi" "0 \<le> lo"
    using uint_ge_0 [of x] by (simp_all add: hi_def lo_def pos_imp_zdiv_nonneg_iff)
  have "n div 10 = hi" "n mod 10 = lo" using r p by auto
  then have "bcd_encode n = word_of_int (hi * 16 + lo)" by (simp add: bcd_encode_def)
  also have "hi * 16 + lo = uint x" by (simp add: hi_def lo_def)
  finally show ?thesis by simp
qed

lemma decode_alarm_field_Inr:
  assumes "decode_alarm_field f x = Inr p"
  shows "\<exists>n. bcd_decode f (x AND 0x7F) = Inr n \<and> p = (bit x 7, n)"
  using assms by (auto simp: decode_alarm_field_def bind_def split: sum.splits)

lemma decode_alarm_field_flag:
  assumes "bcd_decode f (x AND 0x7F) = Inr n"
  shows "decode_alarm_field f (disable_bit d OR (x AND 0x7F)) = Inr (d, n)"
  by (simp add: decode_alarm_field_def flag_and_7F flag_bit7_7F assms bind_def)

lemma decode_alarm_field_same:
  assumes "bcd_decode f (x AND 0x7F) = Inr n"
  shows "decode_alarm_field f x = Inr (bit x 7, n)"
  by (simp add: decode_alarm_field_def assms bind_def)

lemma encode_alarm_field_decoded:
  assumes "bcd_decode f (x AND 0x7F) = Inr n"
  shows "encode_alarm_field (d, n) = disable_bit d OR (x AND 0x7F)"
  using bcd_encode_decode [OF assms] by (simp add: encode_alarm_field_def)

lemma decode_alarm_Inr:
  assumes "decode_alarm 0 [r0, r1, r2, r3, r4] = Inr a"
  shows "\<exists>n0 n1 n2 n3.
           bcd_decode Seconds (r0 AND 0x7F) = Inr n0 \<and> bcd_decode Minutes (r1 AND 0x7F) = Inr n1 \<and>
           bcd_decode Hours (r2 AND 0x7F) = Inr n2 \<and> bcd_decode Day (r3 AND 0x7F) = Inr n3 \<and>
           a = \<lparr>al_sec = (bit r0 7, n0), al_min = (bit r1 7, n1), al_hour = (bit r2 7, n2),
                al_mday = (bit r3 7, n3), al_wday = (bit r4 7, uint (r4 AND 0x07))\<rparr>"
  using assms
  by (auto simp: decode_alarm_def decode_alarm_field_def bind_def split: sum.splits)

lemma reencode_alarm:
  assumes "bcd_decode Seconds (r0 AND 0x7F) = Inr n0" "bcd_decode Minutes (r1 AND 0x7F) = Inr n1"
    "bcd_decode Hours (r2 AND 0x7F) = Inr n2" "bcd_decode Day (r3 AND 0x7F) = Inr n3"
  shows "encode_alarm 0 \<lparr>al_sec = (bit r0 7, n0), al_min = (dis, n1), al_hour = (bit r2 7, n2),
                al_mday = (bit r3 7, n3), al_wday = (bit r4 7, uint (r4 AND 0x07))\<rparr> =
         [r0, disable_bit dis OR (r1 AND 0x7F), r2, r3, disable_bit (bit r4 7) OR (r4 AND 0x07)]"
  by (simp add: encode_alarm_def encode_alarm_field_decoded [OF assms(1)]
      encode_alarm_field_decoded [OF assms(2)] encode_alarm_field_decoded [OF assms(3)]
      encode_alarm_field_decoded [OF assms(4)] recompose_7F)

lemma redecode_alarm:
  assumes "bcd_decode Seconds (r0 AND 0x7F) = Inr n0" "bcd_decode Minutes (r1 AND 0x7F) = Inr n1"
    "bcd_decode Hours (r2 AND 0x7F) = Inr n2" "bcd_decode Day (r3 AND 0x7F) = Inr n3"
  shows "decode_alarm 0 [r0, disable_bit dis OR (r1 AND 0x7F), r2, r3,
                         disable_bit (bit r4 7) OR (r4 AND 0x07)] =
         Inr \<lparr>al_sec = (bit r0 7, n0), al_min = (dis, n1), al_hour = (bit r2 7, n2),
                al_mday = (bit r3 7, n3), al_wday = (bit r4 7, uint (r4 AND 0x07))\<rparr>"
  by (simp add: decode_alarm_def bind_def decode_alarm_field_same [OF assms(1)]
      decode_alarm_field_flag [OF assms(2)] decode_alarm_field_same [OF assms(3)]
      decode_alarm_field_same [OF assms(4)] flag_and_07 flag_bit7_07)

lemma fetch_store_alarm: "fetch 11 5 (store 11 [x0, x1, x2, x3, x4] r) = [x0, x1, x2, x3, x4]"
  by (simp add: fetch_5)

text \<open>
  Claim C8. When the alarm is read, the "disable comparison" flag of its minutes field
  is set (or cleared) and the alarm is written back, the alarm that is then read
  differs in that flag alone: the flags and the numbers of the seconds, hours, day and
  weekday fields are as before, and so is the number of the minutes. On the chip the
  seconds, hours and day registers hold the bytes they held, and the minutes register
  its old low seven bits under the new flag.
\<close>

theorem alarm_minutes_flag_independent:
  assumes "alarm_descriptor_get alarm self b = (Inr a, b1)"
    and "alarm_descriptor_set alarm (a\<lparr>al_min := (dis, snd (al_min a))\<rparr>) self b1 = (Inr u, b2)"
  shows "fst (alarm_descriptor_get alarm self b2) =
           (if next_fails b2 then Inl TransportError
            else Inr (a\<lparr>al_min := (dis, snd (al_min a))\<rparr>))
       \<and> regs b2 0x0B = regs b 0x0B \<and> regs b2 0x0D = regs b 0x0D \<and> regs b2 0x0E = regs b 0x0E
       \<and> regs b2 0x0C = disable_bit dis OR (regs b 0x0C AND 0x7F)"
proof -
  have g: "decode_alarm 0 [regs b 11, regs b 12, regs b 13, regs b 14, regs b 15] = Inr a"
    and r1: "regs b1 = regs b"
    using assms(1) by (auto simp: alarm_get_eq fetch_5 split: if_splits)
  from decode_alarm_Inr [OF g] obtain n0 n1 n2 n3 where
    d: "bcd_decode Seconds (regs b 11 AND 0x7F) = Inr n0"
       "bcd_decode Minutes (regs b 12 AND 0x7F) = Inr n1"
       "bcd_decode Hours (regs b 13 AND 0x7F) = Inr n2"
       "bcd_decode Day (regs b 14 AND 0x7F) = Inr n3"
    and a: "a = \<lparr>al_sec = (bit (regs b 11) 7, n0), al_min = (bit (regs b 12) 7, n1),
                al_hour = (bit (regs b 13) 7, n2), al_mday = (bit (regs b 14) 7, n3),
                al_wday = (bit (regs b 15) 7, uint (regs b 15 AND 0x07))\<rparr>"
    by blast
  have a': "a\<lparr>al_min := (dis, snd (al_min a))\<rparr> =
      \<lparr>al_sec = (bit (regs b 11) 7, n0), al_min = (dis, n1),
       al_hour = (bit (regs b 13) 7, n2), al_mday = (bit (regs b 14) 7, n3),
       al_wday = (bit (regs b 15) 7, uint (regs b 15 AND 0x07))\<rparr>"
    by (simp add: a)
  have e: "encode_alarm 0 (a\<lparr>al_min := (dis, snd (al_min a))\<rparr>) =
      [regs b 11, disable_bit dis OR (regs b 12 AND 0x7F), regs b 13, regs b 14,
       disable_bit (bit (regs b 15) 7) OR (regs b 15 AND 0x07)]"
    unfolding a' by (rule reencode_alarm [OF d])
  have r2: "regs b2 = store 11 [regs b 11, disable_bit dis OR (regs b 12 AND 0x7F), regs b 13,
       regs b 14, disable_bit (bit (regs b 15) 7) OR (regs b 15 AND 0x07)] (regs b)"
    using assms(2) unfolding alarm_set_eq e r1 by (auto split: if_splits)
  have f: "fetch 11 5 (regs b2) = [regs b 11, disable_bit dis OR (regs b 12 AND 0x7F), regs b 13,
       regs b 14, disable_bit (bit (regs b 15) 7) OR (regs b 15 AND 0x07)]"
    unfolding r2 by (rule fetch_store_alarm)
  have rd: "decode_alarm 0 (fetch 11 5 (regs b2)) = Inr (a\<lparr>al_min := (dis, snd (al_min a))\<rparr>)"
    unfolding f a' by (rule redecode_alarm [OF d])
  have rg: "regs b2 0x0B = regs b 0x0B" "regs b2 0x0D = regs b 0x0D" "regs b2 0x0E = regs b 0x0E"
    "regs b2 0x0C = disable_bit dis OR (regs b 0x0C AND 0x7F)"
    unfolding r2 by simp_all
  show ?thesis using rd rg by (simp add: alarm_get_eq)
qed

lemma decode_alarm_example: "decode_alarm 0 [0x12, 0x12, 0x12, 0x12, 0x12] = Inr example_alarm"
proof -
  have m: "(0x12 :: byte) AND 0x7F = 0x12" "(0x12 :: byte) AND 0x07 = 0x02" by simp_all
  have b: "\<not> bit (0x12 :: byte) 7" by (simp add: bit7_iff)
  have d: "bcd_decode f (0x12 :: byte) = Inr 12" for f by (simp add: bcd_decode_uint)
  show ?thesis
    by (simp add: decode_alarm_def decode_alarm_field_def bind_def m b d example_alarm_def)
qed

theorem alarm_minutes_flag_independent_witness:
  "fst (alarm_descriptor_get alarm init alarm_bus) = Inr example_alarm
   \<and> fst (alarm_descriptor_set alarm (example_alarm\<lparr>al_min := (True, snd (al_min example_alarm))\<rparr>)
           init (snd (alarm_descriptor_get alarm init alarm_bus))) = Inr ()
   \<and> fst (alarm_descriptor_get alarm init
           (snd (alarm_descriptor_set alarm
                   (example_alarm\<lparr>al_min := (True, snd (al_min example_alarm))\<rparr>)
                   init (snd (alarm_descriptor_get alarm init alarm_bus))))) =
       Inr (example_alarm\<lparr>al_min := (True, 12)\<rparr>)
   \<and> regs (snd (alarm_descriptor_set alarm
                   (example_alarm\<lparr>al_min := (True, snd (al_min example_alarm))\<rparr>)
                   init (snd (alarm_descriptor_get alarm init alarm_bus)))) 0x0D = 0x12"
proof -
  have g: "alarm_descriptor_get alarm init alarm_bus =
      (Inr example_alarm, snd (alarm_descriptor_get alarm init alarm_bus))"
    by (simp add: alarm_get_eq alarm_bus_def fetch_5 decode_alarm_example)
  have s: "alarm_descriptor_set alarm (example_alarm\<lparr>al_min := (True, snd (al_min example_alarm))\<rparr>)
           init (snd (alarm_descriptor_get alarm init alarm_bus)) =
      (Inr (), snd (alarm_descriptor_set alarm
                   (example_alarm\<lparr>al_min := (True, snd (al_min example_alarm))\<rparr>)
                   init (snd (alarm_descriptor_get alarm init alarm_bus))))"
    by (simp add: alarm_get_eq alarm_set_eq alarm_bus_def)
  have nf: "\<not> next_fails (snd (alarm_descriptor_set alarm
                   (example_alarm\<lparr>al_min := (True, snd (al_min example_alarm))\<rparr>)
                   init (snd (alarm_descriptor_get alarm init alarm_bus))))"
    by (simp add: alarm_get_eq alarm_set_eq alarm_bus_def)
  have r: "regs alarm_bus 0x0D = 0x12" by (simp add: alarm_bus_def)
  have m: "snd (al_min example_alarm) = 12" by (simp add: example_alarm_def)
  have g1: "fst (alarm_descriptor_get alarm init alarm_bus) = Inr example_alarm"
    using g by (metis fst_conv)
  have s1: "fst (alarm_descriptor_set alarm (example_alarm\<lparr>al_min := (True, snd (al_min example_alarm))\<rparr>)
           init (snd (alarm_descriptor_get alarm init alarm_bus))) = Inr ()"
    using s by (metis fst_conv)
  note t = alarm_minutes_flag_independent [OF g s]
  have t1: "fst (alarm_descriptor_get alarm init
           (snd (alarm_descriptor_set alarm
                   (example_alarm\<lparr>al_min := (True, snd (al_min example_alarm))\<rparr>)
                   init (snd (alarm_descriptor_get alarm init alarm_bus))))) =
       Inr (example_alarm\<lparr>al_min := (True, 12)\<rparr>)"
    using t [THEN conjunct1] nf by (simp add: m)
  have t2: "regs (snd (alarm_descriptor_set alarm
                   (example_alarm\<lparr>al_min := (True, snd (al_min example_alarm))\<rparr>)
                   init (snd (alarm_descriptor_get alarm init alarm_bus)))) 0x0D = 0x12"
    using t [THEN conjunct2, THEN conjunct2, THEN conjunct1] r by simp
  show ?thesis using g1 s1 t1 t2 by blast
qed

end
